theory Spec2Isabelle
  imports Main "HOL-Library.Word" "HOL-Library.AList"
begin

unbundle bit_operations_syntax

section \<open>Byte strings\<close>

text \<open>
  A Go \<^verbatim>\<open>string\<close> is a sequence of bytes, and so is an Isabelle \<^typ>\<open>string\<close>: the
  conversion \<^verbatim>\<open>[]byte(s)\<close> only changes the element type.
\<close>

type_synonym byte = "8 word"

definition bytes :: "string \<Rightarrow> byte list" where
  "bytes s = map (\<lambda>c. of_nat (of_char c)) s"

definition isLower :: "char \<Rightarrow> bool" where
  "isLower c = (97 \<le> (of_char c :: nat) \<and> (of_char c :: nat) \<le> 122)"

definition isUpper :: "char \<Rightarrow> bool" where
  "isUpper c = (65 \<le> (of_char c :: nat) \<and> (of_char c :: nat) \<le> 90)"

definition isDigit :: "char \<Rightarrow> bool" where
  "isDigit c = (48 \<le> (of_char c :: nat) \<and> (of_char c :: nat) \<le> 57)"

definition toUpperByte :: "char \<Rightarrow> char" where
  "toUpperByte c = (if isLower c then char_of ((of_char c :: nat) - 32) else c)"

definition toLowerByte :: "char \<Rightarrow> char" where
  "toLowerByte c = (if isUpper c then char_of ((of_char c :: nat) + 32) else c)"

text \<open>ASCII case folding, the comparison HTTP uses for header names.\<close>

definition ToLower :: "string \<Rightarrow> string" where
  "ToLower s = map toLowerByte s"

text \<open>\<^verbatim>\<open>strings.Join(elems, sep)\<close>\<close>

fun Join :: "string list \<Rightarrow> string \<Rightarrow> string" where
  "Join [] sep = []"
| "Join [x] sep = x"
| "Join (x # y # zs) sep = x @ sep @ Join (y # zs) sep"

text \<open>\<^verbatim>\<open>strings.HasPrefix\<close> and \<^verbatim>\<open>strings.TrimSuffix\<close>\<close>

definition HasPrefix :: "string \<Rightarrow> string \<Rightarrow> bool" where
  "HasPrefix s p = (take (length p) s = p)"

definition HasSuffix :: "string \<Rightarrow> string \<Rightarrow> bool" where
  "HasSuffix s p = (length p \<le> length s \<and> drop (length s - length p) s = p)"

definition TrimSuffix :: "string \<Rightarrow> string \<Rightarrow> string" where
  "TrimSuffix s p = (if HasSuffix s p then take (length s - length p) s else s)"

section \<open>HTTP headers (\<^verbatim>\<open>net/http.Header\<close>)\<close>

text \<open>
  \<^verbatim>\<open>http.Header\<close> is a \<^verbatim>\<open>map[string][]string\<close>. It is modelled as an association list
  from key to value list; the order of the list is one of the iteration orders the Go
  runtime may choose for \<^verbatim>\<open>range\<close>. The methods \<^verbatim>\<open>Get\<close>, \<^verbatim>\<open>Set\<close>, \<^verbatim>\<open>Add\<close> and
  \<^verbatim>\<open>Del\<close> first canonicalise the key with \<^verbatim>\<open>textproto.CanonicalMIMEHeaderKey\<close>.
\<close>

type_synonym header = "(string \<times> string list) list"

definition tokenMarks :: "char list" where
  "tokenMarks = [CHR 0x21, CHR 0x23, CHR 0x24, CHR 0x25, CHR 0x26, CHR 0x27, CHR 0x2A, CHR 0x2B,
                 CHR 0x2D, CHR 0x2E, CHR 0x5E, CHR 0x5F, CHR 0x60, CHR 0x7C, CHR 0x7E]"

text \<open>\<^verbatim>\<open>validHeaderFieldByte\<close>: the token characters of RFC 7230.\<close>

definition validHeaderFieldByte :: "char \<Rightarrow> bool" where
  "validHeaderFieldByte c = (isDigit c \<or> isLower c \<or> isUpper c \<or> c \<in> set tokenMarks)"

text \<open>
  The casing loop of \<^verbatim>\<open>canonicalMIMEHeaderKey\<close>: upper case for the first letter and
  for a letter after a dash, lower case elsewhere.
\<close>

fun canonCase :: "bool \<Rightarrow> string \<Rightarrow> string" where
  "canonCase upper [] = []"
| "canonCase upper (c # cs) =
     (let c' = (if upper \<and> isLower c then toUpperByte c
                else if \<not> upper \<and> isUpper c then toLowerByte c
                else c)
      in c' # canonCase (c' = CHR 0x2D) cs)"

text \<open>
  \<^verbatim>\<open>textproto.CanonicalMIMEHeaderKey\<close>: a key with a byte that is not a token character
  (a space included) is returned unchanged; any other key is put in canonical case.
\<close>

definition CanonicalMIMEHeaderKey :: "string \<Rightarrow> string" where
  "CanonicalMIMEHeaderKey s = (if list_all validHeaderFieldByte s then canonCase True s else s)"

definition Values :: "header \<Rightarrow> string \<Rightarrow> string list" where
  "Values h key = (case map_of h (CanonicalMIMEHeaderKey key) of None \<Rightarrow> [] | Some vs \<Rightarrow> vs)"

definition Header_Get :: "header \<Rightarrow> string \<Rightarrow> string" where
  "Header_Get h key = (case Values h key of [] \<Rightarrow> [] | v # _ \<Rightarrow> v)"

definition Header_Set :: "header \<Rightarrow> string \<Rightarrow> string \<Rightarrow> header" where
  "Header_Set h key v = AList.update (CanonicalMIMEHeaderKey key) [v] h"

definition Header_Add :: "header \<Rightarrow> string \<Rightarrow> string \<Rightarrow> header" where
  "Header_Add h key v = AList.update (CanonicalMIMEHeaderKey key) (Values h key @ [v]) h"

definition Header_Del :: "header \<Rightarrow> string \<Rightarrow> header" where
  "Header_Del h key = AList.delete (CanonicalMIMEHeaderKey key) h"

section \<open>Hexadecimal encoding (\<^verbatim>\<open>encoding/hex\<close>)\<close>

definition hextable :: string where
  "hextable = ''0123456789abcdef''"

definition EncodeToString :: "byte list \<Rightarrow> string" where
  "EncodeToString src =
     concat (map (\<lambda>v. [hextable ! unat (drop_bit 4 v), hextable ! unat (v AND 0x0f)]) src)"

section \<open>HMAC-SHA256 (\<^verbatim>\<open>crypto/hmac\<close>, \<^verbatim>\<open>crypto/sha256\<close>)\<close>

text \<open>The round constants of SHA-256, eight rounds to a row.\<close>

definition K256_0 :: "32 word list" where
  "K256_0 = [0x428a2f98, 0x71374491, 0xb5c0fbcf, 0xe9b5dba5, 0x3956c25b, 0x59f111f1, 0x923f82a4, 0xab1c5ed5]"

definition K256_1 :: "32 word list" where
  "K256_1 = [0xd807aa98, 0x12835b01, 0x243185be, 0x550c7dc3, 0x72be5d74, 0x80deb1fe, 0x9bdc06a7, 0xc19bf174]"

definition K256_2 :: "32 word list" where
  "K256_2 = [0xe49b69c1, 0xefbe4786, 0x0fc19dc6, 0x240ca1cc, 0x2de92c6f, 0x4a7484aa, 0x5cb0a9dc, 0x76f988da]"

definition K256_3 :: "32 word list" where
  "K256_3 = [0x983e5152, 0xa831c66d, 0xb00327c8, 0xbf597fc7, 0xc6e00bf3, 0xd5a79147, 0x06ca6351, 0x14292967]"

definition K256_4 :: "32 word list" where
  "K256_4 = [0x27b70a85, 0x2e1b2138, 0x4d2c6dfc, 0x53380d13, 0x650a7354, 0x766a0abb, 0x81c2c92e, 0x92722c85]"

definition K256_5 :: "32 word list" where
  "K256_5 = [0xa2bfe8a1, 0xa81a664b, 0xc24b8b70, 0xc76c51a3, 0xd192e819, 0xd6990624, 0xf40e3585, 0x106aa070]"

definition K256_6 :: "32 word list" where
  "K256_6 = [0x19a4c116, 0x1e376c08, 0x2748774c, 0x34b0bcb5, 0x391c0cb3, 0x4ed8aa4a, 0x5b9cca4f, 0x682e6ff3]"

definition K256_7 :: "32 word list" where
  "K256_7 = [0x748f82ee, 0x78a5636f, 0x84c87814, 0x8cc70208, 0x90befffa, 0xa4506ceb, 0xbef9a3f7, 0xc67178f2]"

definition K256 :: "32 word list" where
  "K256 = K256_0 @ K256_1 @ K256_2 @ K256_3 @ K256_4 @ K256_5 @ K256_6 @ K256_7"

definition initH :: "32 word list" where
  "initH = [0x6a09e667, 0xbb67ae85, 0x3c6ef372, 0xa54ff53a,
            0x510e527f, 0x9b05688c, 0x1f83d9ab, 0x5be0cd19]"

definition rotr :: "nat \<Rightarrow> 32 word \<Rightarrow> 32 word" where
  "rotr n x = (drop_bit n x) OR (push_bit (32 - n) x)"

definition bsig0 :: "32 word \<Rightarrow> 32 word" where
  "bsig0 x = rotr 2 x XOR rotr 13 x XOR rotr 22 x"

definition bsig1 :: "32 word \<Rightarrow> 32 word" where
  "bsig1 x = rotr 6 x XOR rotr 11 x XOR rotr 25 x"

definition ssig0 :: "32 word \<Rightarrow> 32 word" where
  "ssig0 x = rotr 7 x XOR rotr 18 x XOR drop_bit 3 x"

definition ssig1 :: "32 word \<Rightarrow> 32 word" where
  "ssig1 x = rotr 17 x XOR rotr 19 x XOR drop_bit 10 x"

definition ch :: "32 word \<Rightarrow> 32 word \<Rightarrow> 32 word \<Rightarrow> 32 word" where
  "ch x y z = (x AND y) XOR (NOT x AND z)"

definition maj :: "32 word \<Rightarrow> 32 word \<Rightarrow> 32 word \<Rightarrow> 32 word" where
  "maj x y z = (x AND y) XOR (x AND z) XOR (y AND z)"

text \<open>The message schedule, newest word first.\<close>

fun schedule :: "nat \<Rightarrow> 32 word list \<Rightarrow> 32 word list" where
  "schedule 0 ws = ws"
| "schedule (Suc n) ws =
     schedule n ((ssig1 (ws ! 1) + ws ! 6 + ssig0 (ws ! 14) + ws ! 15) # ws)"

fun rounds :: "32 word list \<Rightarrow> 32 word list \<Rightarrow> 32 word list \<Rightarrow> 32 word list" where
  "rounds (k # ks) (w # ws) [a, b, c, d, e, f, g, h] =
     (let t1 = h + bsig1 e + ch e f g + k + w; t2 = bsig0 a + maj a b c
      in rounds ks ws [t1 + t2, a, b, c, d + t1, e, f, g])"
| "rounds _ _ st = st"

definition compress :: "32 word list \<Rightarrow> 32 word list \<Rightarrow> 32 word list" where
  "compress hs blk = map2 (+) hs (rounds K256 (rev (schedule 48 (rev blk))) hs)"

fun be32 :: "byte list \<Rightarrow> 32 word list" where
  "be32 (a # b # c # d # r) =
     (push_bit 24 (ucast a) OR push_bit 16 (ucast b) OR push_bit 8 (ucast c) OR ucast d) # be32 r"
| "be32 _ = []"

definition unbe32 :: "32 word \<Rightarrow> byte list" where
  "unbe32 w = [ucast (drop_bit 24 w), ucast (drop_bit 16 w), ucast (drop_bit 8 w), ucast w]"

definition be64 :: "nat \<Rightarrow> byte list" where
  "be64 n = (let w = (of_nat n :: 64 word)
             in map (\<lambda>i. ucast (drop_bit i w)) [56, 48, 40, 32, 24, 16, 8, 0])"

definition pad :: "byte list \<Rightarrow> byte list" where
  "pad m = m @ [0x80] @ replicate ((55 + 64 - length m mod 64) mod 64) 0 @ be64 (8 * length m)"

fun blocks :: "nat \<Rightarrow> 32 word list \<Rightarrow> 32 word list \<Rightarrow> 32 word list" where
  "blocks 0 hs ws = hs"
| "blocks (Suc n) hs ws = blocks n (compress hs (take 16 ws)) (drop 16 ws)"

definition sha256 :: "byte list \<Rightarrow> byte list" where
  "sha256 m = (let ws = be32 (pad m)
               in concat (map unbe32 (blocks (length ws div 16) initH ws)))"

text \<open>
  \<^verbatim>\<open>hmac.New(sha256.New, key)\<close>, \<^verbatim>\<open>Write(msg)\<close>, \<^verbatim>\<open>Sum(nil)\<close>: a key longer than
  the block size is hashed first, then padded with zeros to 64 bytes.
\<close>

definition hmacSHA256 :: "byte list \<Rightarrow> byte list \<Rightarrow> byte list" where
  "hmacSHA256 key msg =
     (let k0 = (if length key > 64 then sha256 key else key);
          k = k0 @ replicate (64 - length k0) 0
      in sha256 (map (\<lambda>b. b XOR 0x5c) k @ sha256 (map (\<lambda>b. b XOR 0x36) k @ msg)))"

section \<open>Time and its RFC 3339 layout (\<^verbatim>\<open>time.Time.Format(time.RFC3339)\<close>)\<close>

text \<open>
  A \<^verbatim>\<open>time.Time\<close> is an instant (seconds since the Unix epoch; the nanoseconds play no
  part in the layout \<^verbatim>\<open>2006-01-02T15:04:05Z07:00\<close>) and the offset of its location in
  seconds east of UTC.
\<close>

record gotime =
  unixSec :: int
  zoneOffset :: int

definition UTC :: "gotime \<Rightarrow> gotime" where
  "UTC t = t\<lparr>zoneOffset := 0\<rparr>"

definition Unix :: "int \<Rightarrow> gotime" where
  "Unix s = \<lparr>unixSec = s, zoneOffset = 0\<rparr>"

definition digitChar :: "nat \<Rightarrow> char" where
  "digitChar d = char_of (48 + d mod 10)"

fun digitsOf :: "nat \<Rightarrow> nat \<Rightarrow> string" where
  "digitsOf 0 n = []"
| "digitsOf (Suc k) n = digitsOf k (n div 10) @ [digitChar n]"

fun numDigits :: "nat \<Rightarrow> nat \<Rightarrow> nat" where
  "numDigits 0 n = 0"
| "numDigits (Suc fuel) n = (if n < 10 then 1 else Suc (numDigits fuel (n div 10)))"

text \<open>\<^verbatim>\<open>appendInt(b, x, width)\<close>: a sign for a negative value, then zero padding to the width.\<close>

definition appendInt :: "int \<Rightarrow> nat \<Rightarrow> string" where
  "appendInt x width =
     (let u = nat \<bar>x\<bar>
      in (if x < 0 then ''-'' else []) @ digitsOf (max width (numDigits (Suc u) u)) u)"

text \<open>The civil date of a day number (days since 1970-01-01) in the proleptic Gregorian calendar.\<close>

definition civilFromDays :: "int \<Rightarrow> int \<times> int \<times> int" where
  "civilFromDays z0 =
     (let z = z0 + 719468;
          era = z div 146097;
          doe = z - era * 146097;
          yoe = (doe - doe div 1460 + doe div 36524 - doe div 146096) div 365;
          doy = doe - (365 * yoe + yoe div 4 - yoe div 100);
          mp = (5 * doy + 2) div 153;
          d = doy - (153 * mp + 2) div 5 + 1;
          m = (if mp < 10 then mp + 3 else mp - 9);
          y = yoe + era * 400 + (if m \<le> 2 then 1 else 0)
      in (y, m, d))"

definition Format_RFC3339 :: "gotime \<Rightarrow> string" where
  "Format_RFC3339 t =
     (let loc = unixSec t + zoneOffset t;
          (y, m, d) = civilFromDays (loc div 86400);
          s = loc mod 86400;
          zone = zoneOffset t div 60;
          az = \<bar>zoneOffset t\<bar> div 60
      in appendInt y 4 @ ''-'' @ appendInt m 2 @ ''-'' @ appendInt d 2 @ ''T''
         @ appendInt (s div 3600) 2 @ '':'' @ appendInt (s mod 3600 div 60) 2 @ '':''
         @ appendInt (s mod 60) 2
         @ (if zoneOffset t = 0 then ''Z''
            else (if zoneOffset t < 0 then ''-'' else ''+'')
                 @ appendInt (az div 60) 2 @ '':'' @ appendInt (az mod 60) 2))"

section \<open>Errors\<close>

text \<open>
  Go error values as the proxy meets them: the two context sentinels, plain messages
  (\<^verbatim>\<open>errors.New\<close>, \<^verbatim>\<open>fmt.Errorf\<close> without \<^verbatim>\<open>%w\<close>), a \<^verbatim>\<open>net.Error\<close> with its
  \<^verbatim>\<open>Timeout()\<close> answer, a \<^verbatim>\<open>fmt.Errorf("...: %w", err)\<close> wrapper, and the
  \<^verbatim>\<open>*url.Error\<close> in which \<^verbatim>\<open>http.Client.Do\<close> wraps what the transport returns.
\<close>

datatype go_error =
    ContextCanceled
  | ContextDeadlineExceeded
  | ErrorString string
  | NetError string bool
  | WrapError string go_error
  | UrlError string string go_error

section \<open>Requests\<close>

text \<open>
  \<^verbatim>\<open>url.URL\<close>. The user information is kept as its printed form. The request's own
  \<^verbatim>\<open>Host\<close> field is called \<open>ReqHost\<close> to keep it apart from the URL's.
\<close>

record url =
  Scheme :: string
  Opaque :: string
  User :: "string option"
  Host :: string
  Path :: string
  RawPath :: string
  ForceQuery :: bool
  RawQuery :: string
  Fragment :: string
  RawFragment :: string

text \<open>
  An \<^verbatim>\<open>io.Reader\<close> over a body: the bytes it delivers, then end of file or the error it
  reports instead.
\<close>

record reader =
  content :: string
  failure :: "go_error option"

text \<open>
  An \<^verbatim>\<open>http.Request\<close>. Of its context the model keeps the moment at which
  \<^verbatim>\<open>Context().Done()\<close> is closed, in seconds after the handler was entered
  (\<open>None\<close>: the request is never cancelled).
\<close>

record request =
  Method :: string
  URL :: url
  Header :: header
  Body :: reader
  ReqHost :: string
  RemoteAddr :: string
  ctxDone :: "nat option"

section \<open>The signer (\<^verbatim>\<open>pkg/auth/signer.go\<close>)\<close>

definition HeaderAPIKey :: string where "HeaderAPIKey = ''x-api-key-id''"
definition HeaderSignature :: string where "HeaderSignature = ''x-signature''"
definition HeaderTimestamp :: string where "HeaderTimestamp = ''x-timestamp''"

record Signer =
  Key :: string
  Secret :: string
  Now :: "unit \<Rightarrow> gotime"

text \<open>
  \<^verbatim>\<open>AttachSignature\<close> mutates the request and returns an error value; the model returns
  the request as the call leaves it together with the error. \<^verbatim>\<open>mac.Write\<close> of a
  \<^verbatim>\<open>hash.Hash\<close> never returns an error, so that branch of the source has no counterpart.
\<close>

definition AttachSignature :: "Signer \<Rightarrow> request \<Rightarrow> request \<times> go_error option" where
  "AttachSignature s req =
     (if Key s = [] \<or> Secret s = []
      then (req, Some (ErrorString ''signer key and secret must be set''))
      else
        let timestamp = Format_RFC3339 (Now s ());
            payload = Join [Method req, Path (URL req), timestamp] [CHR 0x0A];
            sigBytes = hmacSHA256 (bytes (Secret s)) (bytes payload);
            signature = EncodeToString sigBytes;
            h1 = Header_Set (Header req) HeaderAPIKey (Key s);
            h2 = Header_Set h1 HeaderSignature signature;
            h3 = Header_Set h2 HeaderTimestamp timestamp
        in (req\<lparr>Header := h3\<rparr>, None))"

section \<open>URL reference resolution (\<^verbatim>\<open>net/url\<close>)\<close>

fun IndexByte :: "string \<Rightarrow> char \<Rightarrow> nat option" where
  "IndexByte [] c = None"
| "IndexByte (x # xs) c = (if x = c then Some 0 else map_option Suc (IndexByte xs c))"

definition LastIndexByte :: "string \<Rightarrow> char \<Rightarrow> nat option" where
  "LastIndexByte s c = map_option (\<lambda>i. length s - 1 - i) (IndexByte (rev s) c)"

definition ishex :: "char \<Rightarrow> bool" where
  "ishex c = (isDigit c \<or> (97 \<le> (of_char c :: nat) \<and> (of_char c :: nat) \<le> 102)
                        \<or> (65 \<le> (of_char c :: nat) \<and> (of_char c :: nat) \<le> 70))"

definition unhex :: "char \<Rightarrow> nat" where
  "unhex c = (if isDigit c then of_char c - 48
              else if 97 \<le> (of_char c :: nat) \<and> (of_char c :: nat) \<le> 102 then of_char c - 97 + 10
              else if 65 \<le> (of_char c :: nat) \<and> (of_char c :: nat) \<le> 70 then of_char c - 65 + 10
              else 0)"

definition upperhex :: string where
  "upperhex = ''0123456789ABCDEF''"

text \<open>
  \<^verbatim>\<open>shouldEscape(c, encodePath)\<close>: letters, digits, the marks \<^verbatim>\<open>-_.~\<close> and the reserved
  characters other than \<^verbatim>\<open>?\<close> stay as they are in a path.
\<close>

definition shouldEscape :: "char \<Rightarrow> bool" where
  "shouldEscape c =
     (if isLower c \<or> isUpper c \<or> isDigit c then False
      else if c \<in> set [CHR 0x2D, CHR 0x5F, CHR 0x2E, CHR 0x7E] then False
      else if c \<in> set [CHR 0x24, CHR 0x26, CHR 0x2B, CHR 0x2C, CHR 0x2F, CHR 0x3A, CHR 0x3B,
                         CHR 0x3D, CHR 0x3F, CHR 0x40] then c = CHR 0x3F
      else True)"

text \<open>\<^verbatim>\<open>escape(s, encodePath)\<close>\<close>

definition escape :: "string \<Rightarrow> string" where
  "escape s = concat (map (\<lambda>c. if shouldEscape c
       then [CHR 0x25, upperhex ! ((of_char c :: nat) div 16), upperhex ! ((of_char c :: nat) mod 16)]
       else [c]) s)"

text \<open>\<^verbatim>\<open>unescape(s, encodePath)\<close>; \<open>None\<close> is the \<^verbatim>\<open>EscapeError\<close>.\<close>

fun unescape :: "string \<Rightarrow> string option" where
  "unescape [] = Some []"
| "unescape (c # cs) =
     (if c = CHR 0x25 then
        (case cs of
           a # b # rest \<Rightarrow>
             (if ishex a \<and> ishex b
              then map_option ((#) (char_of (16 * unhex a + unhex b))) (unescape rest)
              else None)
         | _ \<Rightarrow> None)
      else map_option ((#) c) (unescape cs))"

text \<open>\<^verbatim>\<open>validEncoded(s, encodePath)\<close>\<close>

definition validEncoded :: "string \<Rightarrow> bool" where
  "validEncoded s = list_all (\<lambda>c.
       c \<in> set [CHR 0x21, CHR 0x24, CHR 0x26, CHR 0x27, CHR 0x28, CHR 0x29, CHR 0x2A, CHR 0x2B,
                 CHR 0x2C, CHR 0x3B, CHR 0x3D, CHR 0x3A, CHR 0x40, CHR 0x5B, CHR 0x5D, CHR 0x25]
       \<or> \<not> shouldEscape c) s"

text \<open>\<^verbatim>\<open>(*URL).EscapedPath\<close>\<close>

definition EscapedPath :: "url \<Rightarrow> string" where
  "EscapedPath u =
     (if RawPath u \<noteq> [] \<and> validEncoded (RawPath u) \<and> unescape (RawPath u) = Some (Path u)
      then RawPath u
      else if Path u = ''*'' then ''*''
      else escape (Path u))"

text \<open>
  \<^verbatim>\<open>(*URL).setPath\<close>; \<^verbatim>\<open>ResolveReference\<close> ignores its error, which leaves the URL as
  it was.
\<close>

definition setPath :: "url \<Rightarrow> string \<Rightarrow> url" where
  "setPath u p =
     (case unescape p of
        None \<Rightarrow> u
      | Some path \<Rightarrow> u\<lparr>Path := path, RawPath := (if p = escape path then [] else p)\<rparr>)"

text \<open>
  The elements that repeated \<^verbatim>\<open>strings.Cut(remaining, "/")\<close> yields, in order: the
  pieces of the string between the separators.
\<close>

fun splitOn :: "char \<Rightarrow> string \<Rightarrow> string list" where
  "splitOn c [] = [[]]"
| "splitOn c (x # xs) =
     (if x = c then [] # splitOn c xs
      else (case splitOn c xs of [] \<Rightarrow> [[x]] | s # ss \<Rightarrow> (x # s) # ss))"

text \<open>
  One turn of the loop of \<^verbatim>\<open>resolvePath\<close> on the element \<open>elem\<close>; the state is the
  builder \<open>dst\<close> and the flag \<open>first\<close>.
\<close>

definition resolveStep :: "string \<Rightarrow> string \<times> bool \<Rightarrow> string \<times> bool" where
  "resolveStep elem st =
     (let dst = fst st; first = snd st in
      if elem = ''.'' then (dst, False)
      else if elem = ''..'' then
        (let str = drop 1 dst in
         case LastIndexByte str (CHR 0x2F) of
           None \<Rightarrow> (''/'', True)
         | Some index \<Rightarrow> (''/'' @ take index str, first))
      else ((if first then dst else dst @ ''/'') @ elem, False))"

definition resolvePath :: "string \<Rightarrow> string \<Rightarrow> string" where
  "resolvePath base ref =
     (let full = (if ref = [] then base
                  else if hd ref \<noteq> CHR 0x2F then
                    (case LastIndexByte base (CHR 0x2F) of
                       None \<Rightarrow> ref
                     | Some i \<Rightarrow> take (i + 1) base @ ref)
                  else ref)
      in if full = [] then []
         else
           let segs = splitOn (CHR 0x2F) full;
               dst = fst (fold resolveStep segs (''/'', True));
               elem = last segs;
               r = (if elem = ''.'' \<or> elem = ''..'' then dst @ ''/'' else dst)
           in if length r > 1 \<and> r ! 1 = CHR 0x2F then drop 1 r else r)"

text \<open>\<^verbatim>\<open>(*URL).ResolveReference\<close>\<close>

definition ResolveReference :: "url \<Rightarrow> url \<Rightarrow> url" where
  "ResolveReference u ref =
     (let url0 = (if Scheme ref = [] then ref\<lparr>Scheme := Scheme u\<rparr> else ref) in
      if Scheme ref \<noteq> [] \<or> Host ref \<noteq> [] \<or> User ref \<noteq> None
      then setPath url0 (resolvePath (EscapedPath ref) [])
      else if Opaque ref \<noteq> [] then url0\<lparr>User := None, Host := [], Path := []\<rparr>
      else
        let url1 = (if Path ref = [] \<and> \<not> ForceQuery ref \<and> RawQuery ref = []
                    then (let q = url0\<lparr>RawQuery := RawQuery u\<rparr>
                          in if Fragment ref = []
                             then q\<lparr>Fragment := Fragment u, RawFragment := RawFragment u\<rparr>
                             else q)
                    else url0)
        in if Path ref = [] \<and> Opaque u \<noteq> []
           then url1\<lparr>Opaque := Opaque u, User := None, Host := [], Path := []\<rparr>
           else setPath (url1\<lparr>Host := Host u, User := User u\<rparr>)
                        (resolvePath (EscapedPath u) (EscapedPath ref)))"

section \<open>Response writers, bodies and responses\<close>

text \<open>
  What reaches the client, in order: the status line with the headers as they stand at
  that moment, body bytes, and flushes.
\<close>

datatype wevent = WroteHeader int header | Wrote string | Flushed

text \<open>
  An \<^verbatim>\<open>http.ResponseWriter\<close>: the header map the handler edits, the events sent so far,
  whether the writer also is an \<^verbatim>\<open>http.Flusher\<close>, and how many more calls of
  \<^verbatim>\<open>Write\<close> succeed before the connection breaks (\<open>None\<close>: it never breaks).
\<close>

record writer =
  wheader :: header
  sent :: "wevent list"
  flusher :: bool
  budget :: "nat option"

fun isWroteHeader :: "wevent \<Rightarrow> bool" where
  "isWroteHeader (WroteHeader _ _) = True"
| "isWroteHeader _ = False"

definition wroteHeader :: "writer \<Rightarrow> bool" where
  "wroteHeader w = list_ex isWroteHeader (sent w)"

text \<open>The status, the headers and the body the client has received.\<close>

fun statusOf :: "wevent list \<Rightarrow> int option" where
  "statusOf [] = None"
| "statusOf (WroteHeader c _ # _) = Some c"
| "statusOf (_ # es) = statusOf es"

fun headerOf :: "wevent list \<Rightarrow> header" where
  "headerOf [] = []"
| "headerOf (WroteHeader _ h # _) = h"
| "headerOf (_ # es) = headerOf es"

fun bodyOf :: "wevent list \<Rightarrow> string" where
  "bodyOf [] = []"
| "bodyOf (Wrote b # es) = b @ bodyOf es"
| "bodyOf (_ # es) = bodyOf es"

text \<open>\<^verbatim>\<open>w.WriteHeader(code)\<close>; a second call is ignored by the server.\<close>

definition WriteHeader :: "writer \<Rightarrow> int \<Rightarrow> writer" where
  "WriteHeader w code =
     (if wroteHeader w then w else w\<lparr>sent := sent w @ [WroteHeader code (wheader w)]\<rparr>)"

text \<open>
  \<^verbatim>\<open>w.Write(data)\<close>: a write on a broken connection fails and sends nothing; otherwise
  the status 200 is sent first if no status was sent yet.
\<close>

definition Write :: "writer \<Rightarrow> string \<Rightarrow> writer \<times> go_error option" where
  "Write w data =
     (case budget w of
        Some 0 \<Rightarrow> (w, Some (ErrorString ''write: broken pipe''))
      | b \<Rightarrow> (let w1 = WriteHeader w 200
              in (w1\<lparr>sent := sent w1 @ [Wrote data], budget := map_option (\<lambda>n. n - 1) b\<rparr>, None)))"

definition Flush :: "writer \<Rightarrow> writer" where
  "Flush w = (let w1 = WriteHeader w 200 in w1\<lparr>sent := sent w1 @ [Flushed]\<rparr>)"

text \<open>\<^verbatim>\<open>io.ReadAll(r)\<close>: the bytes read and the error, with the reader as it is left.\<close>

definition ReadAll :: "reader \<Rightarrow> string \<times> go_error option \<times> reader" where
  "ReadAll r = (content r, failure r, r\<lparr>content := []\<rparr>)"

text \<open>
  \<^verbatim>\<open>io.ReadAll(io.LimitReader(r, n))\<close>: after \<open>n\<close> bytes the limited reader reports end
  of file and the underlying reader is asked for nothing more.
\<close>

definition ReadAllLimit :: "reader \<Rightarrow> nat \<Rightarrow> string \<times> go_error option \<times> reader" where
  "ReadAllLimit r n =
     (if n \<le> length (content r)
      then (take n (content r), None, r\<lparr>content := drop n (content r)\<rparr>)
      else (content r, failure r, r\<lparr>content := []\<rparr>))"

text \<open>\<^verbatim>\<open>bytes.NewReader(b)\<close>\<close>

definition NewReader :: "string \<Rightarrow> reader" where
  "NewReader b = \<lparr>content = b, failure = None\<rparr>"

text \<open>
  \<^verbatim>\<open>io.Copy(w, r)\<close>: the bytes the reader delivers are written; a failed write or the
  reader's error ends the copy.
\<close>

definition Copy :: "writer \<Rightarrow> reader \<Rightarrow> writer \<times> go_error option" where
  "Copy w r =
     (if content r = [] then (w, failure r)
      else (case Write w (content r) of
              (w1, Some e) \<Rightarrow> (w1, Some e)
            | (w1, None) \<Rightarrow> (w1, failure r)))"

text \<open>\<^verbatim>\<open>http.Error(w, error, code)\<close>\<close>

definition Error :: "writer \<Rightarrow> string \<Rightarrow> int \<Rightarrow> writer" where
  "Error w msg code =
     (let h1 = Header_Del (wheader w) ''Content-Length'';
          h2 = Header_Set h1 ''Content-Type'' ''text/plain; charset=utf-8'';
          h3 = Header_Set h2 ''X-Content-Type-Options'' ''nosniff'';
          w1 = WriteHeader (w\<lparr>wheader := h3\<rparr>) code
      in fst (Write w1 (msg @ [CHR 0x0A])))"

text \<open>\<^verbatim>\<open>http.NotFound(w, r)\<close>\<close>

definition NotFound :: "writer \<Rightarrow> writer" where
  "NotFound w = Error w ''404 page not found'' 404"

text \<open>\<^verbatim>\<open>http.StatusText\<close>, on the codes the proxy passes to it.\<close>

definition StatusText :: "int \<Rightarrow> string" where
  "StatusText code =
     (if code = 502 then ''Bad Gateway''
      else if code = 504 then ''Gateway Timeout''
      else [])"

record response =
  StatusCode :: int
  RespHeader :: header
  RespBody :: reader

section \<open>The proxy (\<^verbatim>\<open>pkg/proxy\<close>)\<close>

text \<open>
  The fields of \<^verbatim>\<open>config.Config\<close> that the handler reads. The structured log is
  not modelled: no logging call changes what is sent to the client or to the upstream.
\<close>

record Config =
  Upstream :: url
  APIKey :: string
  APISecret :: string
  SessionHeader :: string
  SessionValue :: string

text \<open>
  \<^verbatim>\<open>httpError\<close> with its status and cause, and any other error \<^verbatim>\<open>forwardRequest\<close>
  returns. \<^verbatim>\<open>errors.As(err, &httpErr)\<close> succeeds on the first form only: the type is
  private to the package, so no error from outside contains one.
\<close>

datatype proxy_error = httpError int go_error | otherError go_error

text \<open>
  \<open>client\<close> is \<^verbatim>\<open>p.client.Do\<close>: what the transport answers to an outbound request.
\<close>

record Proxy =
  cfg :: Config
  client :: "request \<Rightarrow> go_error + response"
  signer :: Signer
  baseURL :: url

definition NewSigner :: "string \<Rightarrow> string \<Rightarrow> (unit \<Rightarrow> gotime) \<Rightarrow> Signer" where
  "NewSigner key secret clock = \<lparr>Key = key, Secret = secret, Now = (\<lambda>u. UTC (clock u))\<rparr>"

text \<open>
  \<^verbatim>\<open>New(cfg)\<close>; the transport of the client and the wall clock are the two things the
  handler takes from its environment.
\<close>

definition New :: "Config \<Rightarrow> (request \<Rightarrow> go_error + response) \<Rightarrow> (unit \<Rightarrow> gotime) \<Rightarrow> Proxy" where
  "New c transport clock =
     \<lparr>cfg = c, client = transport, signer = NewSigner (APIKey c) (APISecret c) clock,
      baseURL = Upstream c\<rparr>"

definition hopHeaders :: "string list" where
  "hopHeaders = [''Connection'', ''Proxy-Connection'', ''Keep-Alive'', ''Proxy-Authenticate'',
                 ''Proxy-Authorization'', ''Te'', ''Trailer'', ''Transfer-Encoding'', ''Upgrade'']"

definition isEventStreamPath :: "string \<Rightarrow> bool" where
  "isEventStreamPath path =
     (let trimmed = TrimSuffix path ''/''
      in if trimmed = [] then False else trimmed = ''/mcp'')"

definition isDiscoveryPath :: "string \<Rightarrow> bool" where
  "isDiscoveryPath path = HasPrefix path ''/.well-known/oauth-authorization-server''"

definition singleJoiningURL :: "Proxy \<Rightarrow> url \<Rightarrow> url" where
  "singleJoiningURL p requestURL =
     (let ref = \<lparr>Scheme = [], Opaque = [], User = None, Host = [],
                 Path = Path requestURL, RawPath = RawPath requestURL, ForceQuery = False,
                 RawQuery = RawQuery requestURL, Fragment = Fragment requestURL,
                 RawFragment = []\<rparr>
      in ResolveReference (baseURL p) ref)"

definition copyHeaders :: "header \<Rightarrow> header \<Rightarrow> header" where
  "copyHeaders dst src = fold (\<lambda>(k, vv) d. fold (\<lambda>v d'. Header_Add d' k v) vv d) src dst"

definition cleanHopHeaders :: "header \<Rightarrow> header" where
  "cleanHopHeaders h = fold (\<lambda>k h'. Header_Del h' k) hopHeaders h"

text \<open>\<^verbatim>\<open>net.SplitHostPort\<close>; \<open>None\<close> is its \<^verbatim>\<open>AddrError\<close>.\<close>

definition SplitHostPort :: "string \<Rightarrow> (string \<times> string) option" where
  "SplitHostPort hostport =
     (case LastIndexByte hostport (CHR 0x3A) of
        None \<Rightarrow> None
      | Some i \<Rightarrow>
          (let bracket = (hd hostport = CHR 0x5B);
               parsed =
                 (if bracket then
                    (case IndexByte hostport (CHR 0x5D) of
                       None \<Rightarrow> None
                     | Some e \<Rightarrow>
                         (if e + 1 = length hostport then None
                          else if e + 1 = i then Some (take (e - 1) (drop 1 hostport), 1, e + 1)
                          else None))
                  else
                    (let host = take i hostport
                     in if IndexByte host (CHR 0x3A) \<noteq> None then None else Some (host, 0, 0)))
           in case parsed of
                None \<Rightarrow> None
              | Some (host, j, k) \<Rightarrow>
                  (if IndexByte (drop j hostport) (CHR 0x5B) \<noteq> None then None
                   else if IndexByte (drop k hostport) (CHR 0x5D) \<noteq> None then None
                   else Some (host, drop (i + 1) hostport))))"

definition augmentForwardHeaders :: "header \<Rightarrow> request \<Rightarrow> header" where
  "augmentForwardHeaders h r =
     (let h1 = (case SplitHostPort (RemoteAddr r) of
                  Some (clientIP, port) \<Rightarrow>
                    (let prior = Header_Get (Header r) ''X-Forwarded-For'';
                         clientIP' = (if prior \<noteq> [] then prior @ '', '' @ clientIP else clientIP)
                     in Header_Set h ''X-Forwarded-For'' clientIP')
                | None \<Rightarrow> h);
          scheme = Header_Get (Header r) ''X-Forwarded-Proto'';
          h2 = (if scheme \<noteq> [] then Header_Set h1 ''X-Forwarded-Proto'' scheme
                else Header_Set h1 ''X-Forwarded-Proto'' ''http'')
      in Header_Set h2 ''X-Forwarded-Host'' (ReqHost r))"

definition copyResponseHeaders :: "header \<Rightarrow> header \<Rightarrow> header" where
  "copyResponseHeaders dst src = fold (\<lambda>(k, vv) d. fold (\<lambda>v d'. Header_Add d' k v) vv d) src dst"

text \<open>
  \<^verbatim>\<open>http.NewRequestWithContext(ctx, method, url, body)\<close>: an empty method means GET, a
  method that is not a token is refused. The function parses the printed target again;
  the model takes that parse to give the resolved URL back. The new request has an
  empty header map, and its host is the URL's.
\<close>

definition NewRequestWithContext ::
  "nat option \<Rightarrow> string \<Rightarrow> url \<Rightarrow> string \<Rightarrow> go_error + request" where
  "NewRequestWithContext ctx method u body =
     (let m = (if method = [] then ''GET'' else method)
      in if \<not> list_all validHeaderFieldByte m
         then Inl (ErrorString (''net/http: invalid method '' @ m))
         else Inr \<lparr>Method = m, URL = u, Header = [], Body = NewReader body,
                   ReqHost = Host u, RemoteAddr = [], ctxDone = ctx\<rparr>)"

text \<open>\<^verbatim>\<open>errors.Is(err, target)\<close> for a sentinel target: the chain of \<^verbatim>\<open>Unwrap\<close>.\<close>

fun errorsIs :: "go_error \<Rightarrow> go_error \<Rightarrow> bool" where
  "errorsIs (WrapError m e) t = (WrapError m e = t \<or> errorsIs e t)"
| "errorsIs (UrlError opn u e) t = (UrlError opn u e = t \<or> errorsIs e t)"
| "errorsIs e t = (e = t)"

text \<open>
  \<^verbatim>\<open>errors.As(err, &netErr)\<close> for \<^verbatim>\<open>netErr net.Error\<close>: the first error of the chain
  with the methods \<^verbatim>\<open>Timeout\<close> and \<^verbatim>\<open>Temporary\<close>. The deadline sentinel and
  \<^verbatim>\<open>*url.Error\<close> have them; \<^verbatim>\<open>context.Canceled\<close> and the wrappers of
  \<^verbatim>\<open>fmt.Errorf\<close> do not.
\<close>

fun asNetError :: "go_error \<Rightarrow> go_error option" where
  "asNetError (NetError m b) = Some (NetError m b)"
| "asNetError ContextDeadlineExceeded = Some ContextDeadlineExceeded"
| "asNetError (UrlError opn u e) = Some (UrlError opn u e)"
| "asNetError (WrapError m e) = asNetError e"
| "asNetError _ = None"

text \<open>
  \<^verbatim>\<open>Timeout()\<close>; \<^verbatim>\<open>(*url.Error).Timeout\<close> asks the error it holds, and answers false
  when that one has no such method.
\<close>

fun Timeout :: "go_error \<Rightarrow> bool" where
  "Timeout (NetError m b) = b"
| "Timeout ContextDeadlineExceeded = True"
| "Timeout (UrlError opn u e) = Timeout e"
| "Timeout _ = False"

definition StatusGatewayTimeout :: int where "StatusGatewayTimeout = 504"
definition StatusBadGateway :: int where "StatusBadGateway = 502"
definition StatusBadRequest :: int where "StatusBadRequest = 400"
definition StatusInternalServerError :: int where "StatusInternalServerError = 500"
definition maxLogBody :: nat where "maxLogBody = 64 * 1024"

text \<open>
  \<^verbatim>\<open>forwardRequest\<close>: the result, and the requests handed to \<^verbatim>\<open>p.client.Do\<close> on the
  way, in order.
\<close>

definition forwardRequest :: "Proxy \<Rightarrow> request \<Rightarrow> (proxy_error + response) \<times> request list" where
  "forwardRequest p r =
     (case ReadAll (Body r) of
        (bodyBytes, Some err, rd) \<Rightarrow> (Inl (otherError (WrapError ''read request body'' err)), [])
      | (bodyBytes, None, rd) \<Rightarrow>
          (let targetURL = singleJoiningURL p (URL r) in
           case NewRequestWithContext (ctxDone r) (Method r) targetURL bodyBytes of
             Inl err \<Rightarrow> (Inl (otherError (WrapError ''build upstream request'' err)), [])
           | Inr upstreamReq \<Rightarrow>
               (let h1 = copyHeaders (Header upstreamReq) (Header r);
                    h2 = cleanHopHeaders h1;
                    h3 = augmentForwardHeaders h2 r;
                    h4 = (if SessionValue (cfg p) \<noteq> []
                          then Header_Set h3 (SessionHeader (cfg p)) (SessionValue (cfg p))
                          else h3);
                    req1 = upstreamReq\<lparr>Header := h4, ReqHost := Host targetURL\<rparr>
                in case AttachSignature (signer p) req1 of
                     (req2, Some err) \<Rightarrow> (Inl (otherError (WrapError ''sign request'' err)), [])
                   | (req2, None) \<Rightarrow>
                       (case client p req2 of
                          Inl err \<Rightarrow>
                            (if errorsIs err ContextCanceled \<or> errorsIs err ContextDeadlineExceeded
                             then (Inl (httpError StatusGatewayTimeout err), [req2])
                             else if (case asNetError err of
                                        None \<Rightarrow> False | Some netErr \<Rightarrow> Timeout netErr)
                             then (Inl (httpError StatusGatewayTimeout err), [req2])
                             else (Inl (otherError (WrapError ''perform upstream request'' err)),
                                   [req2]))
                        | Inr resp \<Rightarrow> (Inr resp, [req2])))))"

text \<open>
  The loop of \<^verbatim>\<open>serveEventStream\<close>. \<open>elapsed\<close> is the time of the last tick; the
  ticker fires every \<open>heartbeat\<close> seconds. The \<^verbatim>\<open>select\<close> takes the cancellation when
  the context is done by the time of the next tick (when both are ready Go may take
  either; the model takes the cancellation). The loop need not end: \<open>n\<close> bounds the
  number of ticks that are followed, and the flag of the result tells whether the
  handler has returned (\<open>True\<close>) or still waits in the \<^verbatim>\<open>select\<close> (\<open>False\<close>).
\<close>

definition heartbeat :: nat where "heartbeat = 25"

fun heartbeatLoop :: "nat \<Rightarrow> nat \<Rightarrow> nat option \<Rightarrow> writer \<Rightarrow> writer \<times> bool" where
  "heartbeatLoop 0 elapsed done w =
     (case done of
        Some t \<Rightarrow> (w, t \<le> elapsed + heartbeat)
      | None \<Rightarrow> (w, False))"
| "heartbeatLoop (Suc n) elapsed done w =
     (if (case done of Some t \<Rightarrow> t \<le> elapsed + heartbeat | None \<Rightarrow> False) then (w, True)
      else (case Write w ('':keepalive'' @ [CHR 0x0A, CHR 0x0A]) of
              (w1, Some err) \<Rightarrow> (w1, True)
            | (w1, None) \<Rightarrow> heartbeatLoop n (elapsed + heartbeat) done (Flush w1)))"

definition serveEventStream :: "nat \<Rightarrow> writer \<Rightarrow> request \<Rightarrow> writer \<times> bool" where
  "serveEventStream n w r =
     (if \<not> flusher w
      then (Error w ''streaming unsupported'' StatusInternalServerError, True)
      else
        let h1 = Header_Set (wheader w) ''Content-Type'' ''text/event-stream'';
            h2 = Header_Set h1 ''Cache-Control'' ''no-cache'';
            h3 = Header_Set h2 ''Connection'' ''keep-alive''
        in case Write (w\<lparr>wheader := h3\<rparr>) ('':ok'' @ [CHR 0x0A, CHR 0x0A]) of
             (w1, Some err) \<Rightarrow> (w1, True)
           | (w1, None) \<Rightarrow> heartbeatLoop n 0 (ctxDone r) (Flush w1))"

definition serveDiscovery :: "writer \<Rightarrow> request \<Rightarrow> writer" where
  "serveDiscovery w r = NotFound w"

text \<open>
  The outcome of \<^verbatim>\<open>ServeHTTP\<close>: the writer as the handler leaves it, whether the
  handler has returned, and the requests handed to the transport.
\<close>

record outcome =
  out :: writer
  returned :: bool
  calls :: "request list"

definition ServeHTTP :: "Proxy \<Rightarrow> nat \<Rightarrow> writer \<Rightarrow> request \<Rightarrow> outcome" where
  "ServeHTTP p n w r =
     (if Method r = ''GET'' \<and> isEventStreamPath (Path (URL r))
      then (let (w1, fin) = serveEventStream n w r in \<lparr>out = w1, returned = fin, calls = []\<rparr>)
      else if Method r = ''GET'' \<and> isDiscoveryPath (Path (URL r))
      then \<lparr>out = serveDiscovery w r, returned = True, calls = []\<rparr>
      else
        (case forwardRequest p r of
           (Inl err, cs) \<Rightarrow>
             (let status = (case err of httpError st e \<Rightarrow> st | otherError e \<Rightarrow> StatusBadGateway)
              in \<lparr>out = Error w (StatusText status) status, returned = True, calls = cs\<rparr>)
         | (Inr resp, cs) \<Rightarrow>
             (let bodyReader =
                    (if StatusCode resp \<ge> StatusBadRequest
                     then (case ReadAllLimit (RespBody resp) maxLogBody of
                             (payload, Some readErr, rest) \<Rightarrow> rest
                           | (payload, None, rest) \<Rightarrow> NewReader payload)
                     else RespBody resp);
                  hdr = cleanHopHeaders (RespHeader resp);
                  w1 = w\<lparr>wheader := copyResponseHeaders (wheader w) hdr\<rparr>;
                  w2 = WriteHeader w1 (StatusCode resp)
              in \<lparr>out = fst (Copy w2 bodyReader), returned = True, calls = cs\<rparr>)))"

section \<open>Notions used to state the properties\<close>

text \<open>
  A header map as \<^verbatim>\<open>net/http\<close> builds it, on the server side from the request it
  reads and on the client side from the response it reads: a Go map has each key once,
  and both readers store every field under its canonical key.
\<close>

definition wellFormed :: "header \<Rightarrow> bool" where
  "wellFormed h =
     (distinct (map fst h) \<and> list_all (\<lambda>k. CanonicalMIMEHeaderKey k = k) (map fst h))"

text \<open>
  The upstream request as \<^verbatim>\<open>forwardRequest\<close> has built it when it calls the signer.
\<close>

definition outboundHeader :: "Proxy \<Rightarrow> request \<Rightarrow> header" where
  "outboundHeader p r =
     (let h3 = augmentForwardHeaders (cleanHopHeaders (copyHeaders [] (Header r))) r
      in if SessionValue (cfg p) \<noteq> []
         then Header_Set h3 (SessionHeader (cfg p)) (SessionValue (cfg p))
         else h3)"

definition unsignedRequest :: "Proxy \<Rightarrow> request \<Rightarrow> request" where
  "unsignedRequest p r =
     \<lparr>Method = (if Method r = [] then ''GET'' else Method r),
      URL = singleJoiningURL p (URL r),
      Header = outboundHeader p r,
      Body = NewReader (content (Body r)),
      ReqHost = Host (singleJoiningURL p (URL r)),
      RemoteAddr = [],
      ctxDone = ctxDone r\<rparr>"

text \<open>The request that reaches the transport when the signer succeeds.\<close>

definition signedRequest :: "Proxy \<Rightarrow> request \<Rightarrow> request" where
  "signedRequest p r = fst (AttachSignature (signer p) (unsignedRequest p r))"

text \<open>A writer on which nothing was set or sent yet, as the server hands it to the handler.\<close>

definition fresh :: "writer \<Rightarrow> bool" where
  "fresh w = (wheader w = [] \<and> sent w = [])"

section \<open>The inputs of the repository's tests\<close>


definition emptyURL :: url where
  "emptyURL = \<lparr>Scheme = [], Opaque = [], User = None, Host = [], Path = [], RawPath = [],
               ForceQuery = False, RawQuery = [], Fragment = [], RawFragment = []\<rparr>"


text \<open>
  \<^verbatim>\<open>TestProxyForwardsAndSignsRequests\<close> and its siblings: the configuration, the
  proxy with a transport that answers 200, the recorder of \<^verbatim>\<open>httptest\<close> (which can
  flush), and the request \<^verbatim>\<open>POST http://proxy/mcp\<close>.
\<close>

definition upstreamFixture :: url where
  "upstreamFixture = emptyURL\<lparr>Scheme := ''https'', Host := ''upstream.example.com'',
                               Path := ''/root''\<rparr>"

definition configFixture :: Config where
  "configFixture = \<lparr>Upstream = upstreamFixture, APIKey = ''key-id'', APISecret = ''secret-value'',
                    SessionHeader = ''x-session-id'', SessionValue = ''session-123''\<rparr>"

definition okTransport :: "request \<Rightarrow> go_error + response" where
  "okTransport q = Inr \<lparr>StatusCode = 200, RespHeader = [], RespBody = NewReader ''upstream-ok''\<rparr>"

definition errorTransport :: "request \<Rightarrow> go_error + response" where
  "errorTransport q =
     Inr \<lparr>StatusCode = 500, RespHeader = [], RespBody = NewReader ''upstream-error''\<rparr>"

definition fixedClock :: "unit \<Rightarrow> gotime" where
  "fixedClock u = Unix 1700000000"

definition proxyFixture :: Proxy where
  "proxyFixture = New configFixture okTransport fixedClock"

definition recorderFixture :: writer where
  "recorderFixture = \<lparr>wheader = [], sent = [], flusher = True, budget = None\<rparr>"

definition postMcpFixture :: request where
  "postMcpFixture =
     \<lparr>Method = ''POST'', URL = emptyURL\<lparr>Path := ''/mcp''\<rparr>,
      Header = [(''Content-Type'', [''application/json''])],
      Body = NewReader ''{\"hello\":\"world\"}'', ReqHost = ''proxy'',
      RemoteAddr = ''192.0.2.1:1234'', ctxDone = None\<rparr>"

definition getFixture :: "string \<Rightarrow> request" where
  "getFixture path =
     \<lparr>Method = ''GET'', URL = emptyURL\<lparr>Path := path\<rparr>, Header = [], Body = NewReader [],
      ReqHost = ''proxy'', RemoteAddr = ''192.0.2.1:1234'', ctxDone = None\<rparr>"

text \<open>The headers \<^verbatim>\<open>http.Error\<close> leaves on a writer that had none.\<close>

definition errorHeader :: header where
  "errorHeader = [(''Content-Type'', [''text/plain; charset=utf-8'']),
                  (''X-Content-Type-Options'', [''nosniff''])]"

text \<open>A proxy whose configuration has no secret, and one whose transport times out.\<close>

definition unkeyedProxyFixture :: Proxy where
  "unkeyedProxyFixture = New (configFixture\<lparr>APISecret := []\<rparr>) okTransport fixedClock"

definition deadlineError :: go_error where
  "deadlineError = UrlError ''Post'' ''https://upstream.example.com/mcp'' ContextDeadlineExceeded"

definition timeoutProxyFixture :: Proxy where
  "timeoutProxyFixture = New configFixture (\<lambda>q. Inl deadlineError) fixedClock"

text \<open>A request in which the client supplies the signature headers and two hop-by-hop headers itself.\<close>

definition spoofingRequestFixture :: request where
  "spoofingRequestFixture =
     postMcpFixture\<lparr>Header := [(''X-Signature'', [''forged'']), (''X-Api-Key-Id'', [''intruder'']),
                                (''X-Timestamp'', [''1999-01-01T00:00:00Z'', ''again'']),
                                (''Connection'', [''keep-alive'']), (''Te'', [''trailers''])]\<rparr>"

text \<open>The names \<^verbatim>\<open>augmentForwardHeaders\<close> sets.\<close>

definition forwardedNames :: "string list" where
  "forwardedNames = [''X-Forwarded-For'', ''X-Forwarded-Proto'', ''X-Forwarded-Host'']"

text \<open>The reader \<^verbatim>\<open>ServeHTTP\<close> copies to the client: for a status of 400 or more the captured payload, or what is left of the body when capturing it failed.\<close>

definition relayBody :: "response \<Rightarrow> reader" where
  "relayBody resp =
     (if StatusCode resp \<ge> StatusBadRequest
      then (case ReadAllLimit (RespBody resp) maxLogBody of
              (payload, Some readErr, rest) \<Rightarrow> rest
            | (payload, None, rest) \<Rightarrow> NewReader payload)
      else RespBody resp)"

text \<open>A configuration that names a hop-by-hop header as the static session header.\<close>

definition connectionSessionFixture :: Proxy where
  "connectionSessionFixture =
     New (configFixture\<lparr>SessionHeader := ''Connection''\<rparr>) okTransport fixedClock"

text \<open>A transport whose response carries hop-by-hop headers among others.\<close>

definition hopResponseFixture :: response where
  "hopResponseFixture =
     \<lparr>StatusCode = 500,
      RespHeader = [(''Connection'', [''close'']), (''Content-Type'', [''text/plain'']),
                    (''Transfer-Encoding'', [''chunked'']), (''X-Trace'', [''a'', ''b''])],
      RespBody = NewReader ''upstream-error''\<rparr>"

text \<open>The proxy in front of that transport.\<close>

definition hopProxyFixture :: Proxy where
  "hopProxyFixture = New configFixture (\<lambda>q. Inr hopResponseFixture) fixedClock"

text \<open>A recorder whose connection breaks after one write, and a GET of the streaming path that is cancelled after 30 seconds.\<close>

definition brokenRecorderFixture :: writer where
  "brokenRecorderFixture = recorderFixture\<lparr>budget := Some 1\<rparr>"

definition cancelledGetFixture :: request where
  "cancelledGetFixture = (getFixture ''/mcp'')\<lparr>ctxDone := Some 30\<rparr>"

text \<open>The headers and the two comment lines of the event stream.\<close>

definition sseHeader :: header where
  "sseHeader = [(''Content-Type'', [''text/event-stream'']), (''Cache-Control'', [''no-cache'']),
                (''Connection'', [''keep-alive''])]"

definition okLine :: string where
  "okLine = '':ok'' @ [CHR 0x0A, CHR 0x0A]"

definition keepaliveLine :: string where
  "keepaliveLine = '':keepalive'' @ [CHR 0x0A, CHR 0x0A]"



section \<open>Facts about header names\<close>

lemma of_char_lt: "(of_char c :: nat) < 256"
  by (cases c) (simp add: of_char_def horner_sum_eq_sum)

lemma char_of_eqD: "char_of (n::nat) = c \<Longrightarrow> n mod 256 = of_char c"
  by (metis of_char_of)

lemma toUpperByte_props:
  "isLower c \<Longrightarrow> isUpper (toUpperByte c) \<and> \<not> isLower (toUpperByte c) \<and> toUpperByte c \<noteq> CHR 0x2D"
  by (auto simp: isLower_def isUpper_def toUpperByte_def dest!: char_of_eqD)

lemma toLowerByte_props:
  "isUpper c \<Longrightarrow> isLower (toLowerByte c) \<and> \<not> isUpper (toLowerByte c) \<and> toLowerByte c \<noteq> CHR 0x2D"
  by (auto simp: isLower_def isUpper_def toLowerByte_def dest!: char_of_eqD)

lemma lower_not_upper: "isLower c \<Longrightarrow> \<not> isUpper c"
  by (auto simp: isLower_def isUpper_def)

lemma toLower_toUpper: "isLower c \<Longrightarrow> toLowerByte (toUpperByte c) = c"
  by (auto simp: isLower_def isUpper_def toUpperByte_def toLowerByte_def)

lemma toUpper_toLower: "isUpper c \<Longrightarrow> toUpperByte (toLowerByte c) = c"
  by (auto simp: isLower_def isUpper_def toUpperByte_def toLowerByte_def)

lemma dash_not_letter: "\<not> isLower (CHR 0x2D)" "\<not> isUpper (CHR 0x2D)"
  by (simp_all add: isLower_def isUpper_def)

lemma canonCase_idem: "canonCase u (canonCase u s) = canonCase u s"
  by (induction s arbitrary: u) (auto simp: Let_def toUpperByte_props toLowerByte_props lower_not_upper)

lemma toLowerByte_dash: "toLowerByte c = CHR 0x2D \<longleftrightarrow> c = CHR 0x2D"
  using toLowerByte_props[of c] by (auto simp: toLowerByte_def isUpper_def)

lemma canonCase_ToLower: "canonCase u (ToLower s) = canonCase u s"
proof (induction s arbitrary: u)
  case Nil
  show ?case by (simp add: ToLower_def)
next
  case (Cons c cs)
  have step: "(if u \<and> isLower (toLowerByte c) then toUpperByte (toLowerByte c)
        else if \<not> u \<and> isUpper (toLowerByte c) then toLowerByte (toLowerByte c) else toLowerByte c)
      = (if u \<and> isLower c then toUpperByte c
        else if \<not> u \<and> isUpper c then toLowerByte c else c)"
    using toLowerByte_props[of c] toUpper_toLower[of c] lower_not_upper[of c]
    by (auto simp: toLowerByte_def)
  from Cons.IH show ?case
    unfolding ToLower_def by (simp add: Let_def step)
qed

lemma toLowerByte_idem: "toLowerByte (toLowerByte c) = toLowerByte c"
  using toLowerByte_props[of c] by (cases "isUpper c") (simp_all add: toLowerByte_def[of "toLowerByte c"] , simp add: toLowerByte_def)

lemma toLowerByte_lower: "isLower c \<Longrightarrow> toLowerByte c = c"
  by (simp add: toLowerByte_def lower_not_upper)

lemma ToLower_canonCase: "ToLower (canonCase u s) = ToLower s"
proof (induction s arbitrary: u)
  case Nil
  show ?case by (simp add: ToLower_def)
next
  case (Cons c cs)
  have step: "toLowerByte (if u \<and> isLower c then toUpperByte c
        else if \<not> u \<and> isUpper c then toLowerByte c else c) = toLowerByte c"
    by (simp add: toLower_toUpper toLowerByte_idem toLowerByte_lower)
  from Cons.IH show ?case
    unfolding ToLower_def by (simp add: Let_def step)
qed

lemma valid_toLowerByte: "validHeaderFieldByte (toLowerByte c) = validHeaderFieldByte c"
proof (cases "isUpper c")
  case True
  then show ?thesis
    using toLowerByte_props[of c] by (simp add: validHeaderFieldByte_def)
next
  case False
  then show ?thesis by (simp add: toLowerByte_def)
qed

lemma valid_toUpperByte: "validHeaderFieldByte (toUpperByte c) = validHeaderFieldByte c"
proof (cases "isLower c")
  case True
  then show ?thesis
    using toUpperByte_props[of c] by (simp add: validHeaderFieldByte_def)
next
  case False
  then show ?thesis by (simp add: toUpperByte_def)
qed

lemma valid_ToLower: "list_all validHeaderFieldByte (ToLower s) = list_all validHeaderFieldByte s"
  by (induction s) (simp_all add: ToLower_def valid_toLowerByte)

lemma valid_canonCase: "list_all validHeaderFieldByte (canonCase u s) = list_all validHeaderFieldByte s"
  by (induction s arbitrary: u) (simp_all add: Let_def valid_toLowerByte valid_toUpperByte)

lemma canon_idem: "CanonicalMIMEHeaderKey (CanonicalMIMEHeaderKey s) = CanonicalMIMEHeaderKey s"
  by (simp add: CanonicalMIMEHeaderKey_def valid_canonCase canonCase_idem)

lemma ToLower_canon: "ToLower (CanonicalMIMEHeaderKey s) = ToLower s"
  by (simp add: CanonicalMIMEHeaderKey_def ToLower_canonCase)

text \<open>A canonical key that equals a token name up to case is the canonical form of that name.\<close>

lemma canon_key_unique:
  assumes "CanonicalMIMEHeaderKey k = k" and "ToLower k = ToLower name"
    and "list_all validHeaderFieldByte name"
  shows "k = CanonicalMIMEHeaderKey name"
proof -
  have "list_all validHeaderFieldByte k"
    using assms(2,3) valid_ToLower by metis
  then have "k = canonCase True k"
    using assms(1) by (simp add: CanonicalMIMEHeaderKey_def)
  also have "\<dots> = canonCase True (ToLower k)" by (simp add: canonCase_ToLower)
  also have "\<dots> = canonCase True name" by (simp add: assms(2) canonCase_ToLower)
  finally show ?thesis using assms(3) by (simp add: CanonicalMIMEHeaderKey_def)
qed

section \<open>Facts about headers\<close>

lemma Values_Add:
  "Values (Header_Add h k v) k' =
     (if CanonicalMIMEHeaderKey k' = CanonicalMIMEHeaderKey k then Values h k @ [v] else Values h k')"
  by (simp add: Values_def Header_Add_def update_conv')

lemma Values_Set:
  "Values (Header_Set h k v) k' =
     (if CanonicalMIMEHeaderKey k' = CanonicalMIMEHeaderKey k then [v] else Values h k')"
  by (simp add: Values_def Header_Set_def update_conv')

lemma Values_Del:
  "Values (Header_Del h k) k' =
     (if CanonicalMIMEHeaderKey k' = CanonicalMIMEHeaderKey k then [] else Values h k')"
  by (simp add: Values_def Header_Del_def delete_conv')

lemma keys_Set: "fst ` set (Header_Set h k v) = insert (CanonicalMIMEHeaderKey k) (fst ` set h)"
  by (simp add: Header_Set_def dom_update)

lemma keys_Add: "fst ` set (Header_Add h k v) = insert (CanonicalMIMEHeaderKey k) (fst ` set h)"
  by (simp add: Header_Add_def dom_update)

lemma dom_delete: "fst ` set (AList.delete k al) = fst ` set al - {k}"
  by (induction al) auto

lemma keys_Del: "fst ` set (Header_Del h k) = fst ` set h - {CanonicalMIMEHeaderKey k}"
  by (simp add: Header_Del_def dom_delete)

lemma wellFormed_Set: "wellFormed h \<Longrightarrow> wellFormed (Header_Set h k v)"
  unfolding wellFormed_def list_all_iff
  by (auto simp: Header_Set_def distinct_update dom_update canon_idem)

lemma wellFormed_Add: "wellFormed h \<Longrightarrow> wellFormed (Header_Add h k v)"
  unfolding wellFormed_def list_all_iff
  by (auto simp: Header_Add_def distinct_update dom_update canon_idem)

lemma wellFormed_Del: "wellFormed h \<Longrightarrow> wellFormed (Header_Del h k)"
  unfolding wellFormed_def list_all_iff
  by (auto simp: Header_Del_def distinct_delete dom_delete)

lemma wellFormed_Nil: "wellFormed []"
  by (simp add: wellFormed_def)

lemma addAll_Values:
  "Values (fold (\<lambda>v d. Header_Add d k v) vv d) k' =
     (if CanonicalMIMEHeaderKey k' = CanonicalMIMEHeaderKey k then Values d k' @ vv else Values d k')"
proof (induction vv arbitrary: d)
  case Nil
  show ?case by simp
next
  case (Cons v vv)
  show ?case
    using Cons.IH[of "Header_Add d k v"] by (auto simp: Values_Add) (simp add: Values_def)
qed

lemma addAll_keys:
  "fst ` set (fold (\<lambda>v d. Header_Add d k v) vv d) =
     (if vv = [] then fst ` set d else insert (CanonicalMIMEHeaderKey k) (fst ` set d))"
  by (induction vv arbitrary: d) (auto simp: keys_Add)

lemma addAll_wellFormed:
  "wellFormed d \<Longrightarrow> wellFormed (fold (\<lambda>v d. Header_Add d k v) vv d)"
  by (induction vv arbitrary: d) (auto simp: wellFormed_Add)

lemma copyHeaders_Cons:
  "copyHeaders dst ((k, vv) # src) = copyHeaders (fold (\<lambda>v d. Header_Add d k v) vv dst) src"
  by (simp add: copyHeaders_def)

lemma copyHeaders_Nil: "copyHeaders dst [] = dst"
  by (simp add: copyHeaders_def)

lemma copyHeaders_wellFormed: "wellFormed dst \<Longrightarrow> wellFormed (copyHeaders dst src)"
proof (induction src arbitrary: dst)
  case Nil
  then show ?case by (simp add: copyHeaders_Nil)
next
  case (Cons a src)
  then show ?case by (cases a) (simp add: copyHeaders_Cons addAll_wellFormed)
qed

lemma copyHeaders_Values:
  "Values (copyHeaders dst src) k' =
     Values dst k' @ concat (map snd (filter (\<lambda>e. CanonicalMIMEHeaderKey (fst e) = CanonicalMIMEHeaderKey k') src))"
proof (induction src arbitrary: dst)
  case Nil
  then show ?case by (simp add: copyHeaders_Nil)
next
  case (Cons a src)
  obtain k vv where a: "a = (k, vv)" by (cases a)
  show ?case
    unfolding a copyHeaders_Cons Cons.IH
    by (auto simp: addAll_Values)
qed

lemma copyHeaders_keys:
  "fst ` set (copyHeaders dst src) \<subseteq> fst ` set dst \<union> CanonicalMIMEHeaderKey ` fst ` set src"
proof (induction src arbitrary: dst)
  case Nil
  then show ?case by (simp add: copyHeaders_Nil)
next
  case (Cons a src)
  obtain k vv where a: "a = (k, vv)" by (cases a)
  show ?case
    unfolding a copyHeaders_Cons
    using Cons.IH[of "fold (\<lambda>v d. Header_Add d k v) vv dst"]
    by (auto simp: addAll_keys split: if_splits)
qed

lemma copyResponseHeaders_eq: "copyResponseHeaders = copyHeaders"
  by (intro ext) (simp add: copyResponseHeaders_def copyHeaders_def)

lemma hop_canonical: "map CanonicalMIMEHeaderKey hopHeaders = hopHeaders"
  by code_simp

lemma hop_valid: "list_all (list_all validHeaderFieldByte) hopHeaders"
  by code_simp

lemma delAll_keys:
  "fst ` set (fold (\<lambda>k h'. Header_Del h' k) ks h) = fst ` set h - CanonicalMIMEHeaderKey ` set ks"
  by (induction ks arbitrary: h) (auto simp: keys_Del)

lemma delAll_Values:
  "Values (fold (\<lambda>k h'. Header_Del h' k) ks h) k' =
     (if CanonicalMIMEHeaderKey k' \<in> CanonicalMIMEHeaderKey ` set ks then [] else Values h k')"
  by (induction ks arbitrary: h) (auto simp: Values_Del Values_def Header_Del_def delete_conv')

lemma delAll_wellFormed:
  "wellFormed h \<Longrightarrow> wellFormed (fold (\<lambda>k h'. Header_Del h' k) ks h)"
  by (induction ks arbitrary: h) (auto simp: wellFormed_Del)

lemma cleanHopHeaders_keys: "fst ` set (cleanHopHeaders h) = fst ` set h - set hopHeaders"
proof -
  have "CanonicalMIMEHeaderKey ` set hopHeaders = set hopHeaders"
    using hop_canonical by (metis set_map)
  then show ?thesis by (simp add: cleanHopHeaders_def delAll_keys)
qed

lemma cleanHopHeaders_Values:
  "Values (cleanHopHeaders h) k =
     (if CanonicalMIMEHeaderKey k \<in> set hopHeaders then [] else Values h k)"
proof -
  have "CanonicalMIMEHeaderKey ` set hopHeaders = set hopHeaders"
    using hop_canonical by (metis set_map)
  then show ?thesis by (simp add: cleanHopHeaders_def delAll_Values)
qed

lemma cleanHopHeaders_wellFormed: "wellFormed h \<Longrightarrow> wellFormed (cleanHopHeaders h)"
  by (simp add: cleanHopHeaders_def delAll_wellFormed)

text \<open>A canonical key that equals one of the nine names up to case is that name.\<close>

lemma hop_key_canonical:
  assumes "CanonicalMIMEHeaderKey k = k" and "name \<in> set hopHeaders" and "ToLower k = ToLower name"
  shows "k \<in> set hopHeaders"
proof -
  have v: "list_all validHeaderFieldByte name"
    using hop_valid assms(2) by (simp add: list_all_iff)
  have "CanonicalMIMEHeaderKey name = name"
    using hop_canonical assms(2) by (metis map_eq_conv map_idI list.map_id0 id_apply)
  then show ?thesis using canon_key_unique[OF assms(1) assms(3) v] assms(2) by simp
qed

lemma canon_sig_names:
  "CanonicalMIMEHeaderKey HeaderAPIKey = ''X-Api-Key-Id''"
  "CanonicalMIMEHeaderKey HeaderSignature = ''X-Signature''"
  "CanonicalMIMEHeaderKey HeaderTimestamp = ''X-Timestamp''"
  by code_simp+

section \<open>Facts about the forwarding engine\<close>

lemma AttachSignature_fails:
  "Key s = [] \<or> Secret s = [] \<Longrightarrow>
   AttachSignature s req = (req, Some (ErrorString ''signer key and secret must be set''))"
  by (auto simp: AttachSignature_def)

lemma AttachSignature_ok:
  "Key s \<noteq> [] \<Longrightarrow> Secret s \<noteq> [] \<Longrightarrow> snd (AttachSignature s req) = None"
  by (simp add: AttachSignature_def Let_def)

lemma forwardRequest_unfold:
  "forwardRequest p r =
     (case failure (Body r) of
        Some err \<Rightarrow> (Inl (otherError (WrapError ''read request body'' err)), [])
      | None \<Rightarrow>
         (if \<not> list_all validHeaderFieldByte (if Method r = [] then ''GET'' else Method r)
          then (Inl (otherError (WrapError ''build upstream request''
                  (ErrorString (''net/http: invalid method '' @ (if Method r = [] then ''GET'' else Method r))))), [])
          else (case AttachSignature (signer p) (unsignedRequest p r) of
                  (req2, Some err) \<Rightarrow> (Inl (otherError (WrapError ''sign request'' err)), [])
                | (req2, None) \<Rightarrow>
                    (case client p req2 of
                       Inl err \<Rightarrow>
                         (if errorsIs err ContextCanceled \<or> errorsIs err ContextDeadlineExceeded
                          then (Inl (httpError StatusGatewayTimeout err), [req2])
                          else if (case asNetError err of None \<Rightarrow> False | Some netErr \<Rightarrow> Timeout netErr)
                          then (Inl (httpError StatusGatewayTimeout err), [req2])
                          else (Inl (otherError (WrapError ''perform upstream request'' err)), [req2]))
                     | Inr resp \<Rightarrow> (Inr resp, [req2])))))"
proof (cases "failure (Body r)")
  case (Some e)
  then show ?thesis by (simp add: forwardRequest_def ReadAll_def)
next
  case None
  show ?thesis
  proof (cases "list_all validHeaderFieldByte (if Method r = [] then ''GET'' else Method r)")
    case False
    then show ?thesis
      by (simp add: forwardRequest_def ReadAll_def NewRequestWithContext_def None Let_def)
  next
    case True
    then show ?thesis
      by (simp add: forwardRequest_def ReadAll_def NewRequestWithContext_def None Let_def
          unsignedRequest_def outboundHeader_def)
  qed
qed


lemma forwardRequest_calls:
  assumes "q \<in> set (snd (forwardRequest p r))"
  shows "Key (signer p) \<noteq> [] \<and> Secret (signer p) \<noteq> [] \<and> q = signedRequest p r
         \<and> snd (forwardRequest p r) = [q]"
proof -
  have k: "Key (signer p) \<noteq> [] \<and> Secret (signer p) \<noteq> []"
  proof (rule ccontr)
    assume "\<not> ?thesis"
    then have "AttachSignature (signer p) (unsignedRequest p r)
        = (unsignedRequest p r, Some (ErrorString ''signer key and secret must be set''))"
      using AttachSignature_fails by blast
    then have "snd (forwardRequest p r) = []"
      by (simp add: forwardRequest_unfold split: option.splits)
    with assms show False by simp
  qed
  then have ok: "snd (AttachSignature (signer p) (unsignedRequest p r)) = None"
    by (simp add: AttachSignature_ok)
  then have "AttachSignature (signer p) (unsignedRequest p r) = (signedRequest p r, None)"
    by (simp add: signedRequest_def prod_eq_iff)
  then have "snd (forwardRequest p r) = [] \<or> snd (forwardRequest p r) = [signedRequest p r]"
    by (simp add: forwardRequest_unfold split: option.splits sum.splits)
  with assms k show ?thesis by auto
qed

lemma forwardRequest_reached:
  assumes "failure (Body r) = None"
    and "list_all validHeaderFieldByte (if Method r = [] then ''GET'' else Method r)"
    and "Key (signer p) \<noteq> []" and "Secret (signer p) \<noteq> []"
  shows "forwardRequest p r =
     (case client p (signedRequest p r) of
        Inl err \<Rightarrow>
          (if errorsIs err ContextCanceled \<or> errorsIs err ContextDeadlineExceeded
              \<or> (case asNetError err of None \<Rightarrow> False | Some netErr \<Rightarrow> Timeout netErr)
           then Inl (httpError StatusGatewayTimeout err)
           else Inl (otherError (WrapError ''perform upstream request'' err)))
      | Inr resp \<Rightarrow> Inr resp, [signedRequest p r])"
proof -
  have "AttachSignature (signer p) (unsignedRequest p r) = (signedRequest p r, None)"
    using AttachSignature_ok[OF assms(3,4)] by (simp add: signedRequest_def prod_eq_iff)
  then show ?thesis
    using assms(1,2) by (simp add: forwardRequest_unfold split: sum.splits)
qed

lemma ServeHTTP_forward:
  assumes "\<not> (Method r = ''GET'' \<and> (isEventStreamPath (Path (URL r)) \<or> isDiscoveryPath (Path (URL r))))"
  shows "calls (ServeHTTP p n w r) = snd (forwardRequest p r)"
    and "returned (ServeHTTP p n w r)"
  using assms by (auto simp: ServeHTTP_def Let_def split: prod.splits sum.splits)

lemma ServeHTTP_shortcut:
  assumes "Method r = ''GET'' \<and> (isEventStreamPath (Path (URL r)) \<or> isDiscoveryPath (Path (URL r)))"
  shows "calls (ServeHTTP p n w r) = []"
  using assms by (auto simp: ServeHTTP_def Let_def split: prod.splits)

lemma ServeHTTP_calls:
  assumes "q \<in> set (calls (ServeHTTP p n w r))"
  shows "Key (signer p) \<noteq> [] \<and> Secret (signer p) \<noteq> [] \<and> q = signedRequest p r
         \<and> calls (ServeHTTP p n w r) = [q]"
proof (cases "Method r = ''GET'' \<and> (isEventStreamPath (Path (URL r)) \<or> isDiscoveryPath (Path (URL r)))")
  case True
  then show ?thesis using assms ServeHTTP_shortcut[OF True] by simp
next
  case False
  then show ?thesis using assms ServeHTTP_forward(1)[OF False] forwardRequest_calls by simp
qed

section \<open>The signer's contract\<close>


lemma fixture_timestamp:
  "Format_RFC3339 (UTC (Unix 1700000000)) = ''2023-11-14T22:13:20Z''"
  by code_simp


lemma canon_error_names:
  "CanonicalMIMEHeaderKey ''Content-Length'' = ''Content-Length''"
  "CanonicalMIMEHeaderKey ''Content-Type'' = ''Content-Type''"
  "CanonicalMIMEHeaderKey ''X-Content-Type-Options'' = ''X-Content-Type-Options''"
  by code_simp+

lemma Error_fresh:
  assumes "fresh w"
  shows "sent (Error w msg code) =
           WroteHeader code errorHeader #
             (if budget w = Some 0 then [] else [Wrote (msg @ [CHR 0x0A])])"
  using assms
  by (auto simp: Error_def fresh_def Let_def Header_Del_def Header_Set_def canon_error_names
      WriteHeader_def wroteHeader_def Write_def errorHeader_def split: option.splits nat.splits)

lemma forwardRequest_nocall:
  "snd (forwardRequest p r) = [] \<or> snd (forwardRequest p r) = [signedRequest p r]"
proof (cases "snd (forwardRequest p r)")
  case Nil
  then show ?thesis by simp
next
  case (Cons a list)
  then have "a \<in> set (snd (forwardRequest p r))" by simp
  from forwardRequest_calls[OF this] show ?thesis by simp
qed

lemma forwardRequest_called:
  assumes "snd (forwardRequest p r) \<noteq> []"
  shows "failure (Body r) = None
       \<and> list_all validHeaderFieldByte (if Method r = [] then ''GET'' else Method r)"
  using assms by (auto simp: forwardRequest_unfold split: option.splits if_splits)

section \<open>Signing failures\<close>

text \<open>
  C6. \<^verbatim>\<open>AttachSignature\<close> fails exactly when the key identifier or the secret is empty.
  It then returns the configuration error and leaves the request, its headers included,
  as it was. \<^verbatim>\<open>forwardRequest\<close> gives the failure back as the error
  \<^verbatim>\<open>sign request: ...\<close> without calling the transport, and \<^verbatim>\<open>ServeHTTP\<close> returns
  normally, answering that one request with status 502.
\<close>

theorem signing_failure:
  fixes s :: Signer and req r :: request and p :: Proxy and w :: writer and n :: nat
  shows "(snd (AttachSignature s req) \<noteq> None \<longleftrightarrow> Key s = [] \<or> Secret s = [])
       \<and> (Key s = [] \<or> Secret s = [] \<longrightarrow>
            AttachSignature s req = (req, Some (ErrorString ''signer key and secret must be set'')))
       \<and> (Key (signer p) = [] \<or> Secret (signer p) = [] \<longrightarrow>
            snd (forwardRequest p r) = []
          \<and> (failure (Body r) = None
               \<and> list_all validHeaderFieldByte (if Method r = [] then ''GET'' else Method r) \<longrightarrow>
              fst (forwardRequest p r) = Inl (otherError (WrapError ''sign request''
                 (ErrorString ''signer key and secret must be set''))))
          \<and> (\<not> (Method r = ''GET'' \<and> (isEventStreamPath (Path (URL r))
                                        \<or> isDiscoveryPath (Path (URL r)))) \<longrightarrow>
              returned (ServeHTTP p n w r) \<and> calls (ServeHTTP p n w r) = []
            \<and> (fresh w \<longrightarrow> statusOf (sent (out (ServeHTTP p n w r))) = Some 502)))"
proof -
  have a: "snd (AttachSignature s req) \<noteq> None \<longleftrightarrow> Key s = [] \<or> Secret s = []"
  proof (cases "Key s = [] \<or> Secret s = []")
    case True
    then show ?thesis using AttachSignature_fails[of s req] by auto
  next
    case False
    then show ?thesis using AttachSignature_ok[of s req] by simp
  qed
  have b: "Key s = [] \<or> Secret s = [] \<longrightarrow>
            AttachSignature s req = (req, Some (ErrorString ''signer key and secret must be set''))"
    using AttachSignature_fails by blast
  have c: "snd (forwardRequest p r) = []
          \<and> (failure (Body r) = None
               \<and> list_all validHeaderFieldByte (if Method r = [] then ''GET'' else Method r) \<longrightarrow>
              fst (forwardRequest p r) = Inl (otherError (WrapError ''sign request''
                 (ErrorString ''signer key and secret must be set''))))
          \<and> (\<not> (Method r = ''GET'' \<and> (isEventStreamPath (Path (URL r))
                                        \<or> isDiscoveryPath (Path (URL r)))) \<longrightarrow>
              returned (ServeHTTP p n w r) \<and> calls (ServeHTTP p n w r) = []
            \<and> (fresh w \<longrightarrow> statusOf (sent (out (ServeHTTP p n w r))) = Some 502))"
    if k: "Key (signer p) = [] \<or> Secret (signer p) = []"
  proof -
    have f: "AttachSignature (signer p) (unsignedRequest p r)
        = (unsignedRequest p r, Some (ErrorString ''signer key and secret must be set''))"
      using AttachSignature_fails[OF k] .
    have c1: "snd (forwardRequest p r) = []"
      using forwardRequest_calls[of _ p r] k by (cases "snd (forwardRequest p r)") auto
    have c2: "failure (Body r) = None
               \<and> list_all validHeaderFieldByte (if Method r = [] then ''GET'' else Method r) \<longrightarrow>
              fst (forwardRequest p r) = Inl (otherError (WrapError ''sign request''
                 (ErrorString ''signer key and secret must be set'')))"
      by (simp add: forwardRequest_unfold f)
    have e: "\<exists>e. fst (forwardRequest p r) = Inl (otherError e)"
      by (auto simp: forwardRequest_unfold f split: option.splits)
    have c3: "returned (ServeHTTP p n w r) \<and> calls (ServeHTTP p n w r) = []
            \<and> (fresh w \<longrightarrow> statusOf (sent (out (ServeHTTP p n w r))) = Some 502)"
      if ns: "\<not> (Method r = ''GET'' \<and> (isEventStreamPath (Path (URL r))
                                        \<or> isDiscoveryPath (Path (URL r))))"
    proof -
      obtain e where e: "forwardRequest p r = (Inl (otherError e), [])"
        using e c1 by (metis prod.collapse)
      have "out (ServeHTTP p n w r) = Error w (StatusText 502) 502"
        using ns by (auto simp: ServeHTTP_def e StatusBadGateway_def)
      then show ?thesis
        using ServeHTTP_forward[OF ns, of p n w] c1 by (simp add: Error_fresh)
    qed
    show ?thesis using c1 c2 c3 by blast
  qed
  show ?thesis using a b c by blast
qed


lemma post_is_token: "list_all validHeaderFieldByte ''POST''"
  by code_simp

lemma postMcp_facts:
  "Method postMcpFixture = ''POST''" "Path (URL postMcpFixture) = ''/mcp''"
  "failure (Body postMcpFixture) = None"
  by (simp_all add: postMcpFixture_def emptyURL_def NewReader_def)

theorem signing_failure_witness:
  "Secret (signer unkeyedProxyFixture) = []
   \<and> AttachSignature (signer unkeyedProxyFixture) postMcpFixture
       = (postMcpFixture, Some (ErrorString ''signer key and secret must be set''))
   \<and> fst (forwardRequest unkeyedProxyFixture postMcpFixture)
       = Inl (otherError (WrapError ''sign request''
               (ErrorString ''signer key and secret must be set'')))
   \<and> returned (ServeHTTP unkeyedProxyFixture 0 recorderFixture postMcpFixture)
   \<and> calls (ServeHTTP unkeyedProxyFixture 0 recorderFixture postMcpFixture) = []
   \<and> statusOf (sent (out (ServeHTTP unkeyedProxyFixture 0 recorderFixture postMcpFixture)))
       = Some 502"
proof -
  have k: "Secret (signer unkeyedProxyFixture) = []"
    by (simp add: unkeyedProxyFixture_def New_def NewSigner_def)
  have f: "fresh recorderFixture"
    by (simp add: fresh_def recorderFixture_def)
  show ?thesis
    using signing_failure[of "signer unkeyedProxyFixture" postMcpFixture unkeyedProxyFixture
        postMcpFixture 0 recorderFixture] k f
    by (simp add: postMcp_facts post_is_token[simplified])
qed

section \<open>Transport failures\<close>

text \<open>
  C5. When the one outbound call fails, the client receives status 504 with the body
  \<^verbatim>\<open>Gateway Timeout\<close> if the failure is a cancelled or expired context or a timeout
  reported by the transport, and status 502 with the body \<^verbatim>\<open>Bad Gateway\<close> for every
  other failure. The error \<^verbatim>\<open>forwardRequest\<close> returns holds the original cause, and
  what is sent consists of the status line with the two headers of \<^verbatim>\<open>http.Error\<close>
  and the status text: nothing of an upstream response.
\<close>

theorem transport_failure_status:
  fixes p :: Proxy and r q :: request and w :: writer and e :: go_error
  assumes "calls (ServeHTTP p n w r) = [q]" and "client p q = Inl e"
    and "fresh w" and "budget w \<noteq> Some 0"
  defines "timedOut \<equiv> errorsIs e ContextCanceled \<or> errorsIs e ContextDeadlineExceeded
                       \<or> (\<exists>netErr. asNetError e = Some netErr \<and> Timeout netErr)"
  shows "fst (forwardRequest p r) =
           Inl (if timedOut then httpError 504 e
                else otherError (WrapError ''perform upstream request'' e))
       \<and> returned (ServeHTTP p n w r)
       \<and> sent (out (ServeHTTP p n w r)) =
           (if timedOut
            then [WroteHeader 504 errorHeader, Wrote (''Gateway Timeout'' @ [CHR 0x0A])]
            else [WroteHeader 502 errorHeader, Wrote (''Bad Gateway'' @ [CHR 0x0A])])"
proof -
  have q: "q \<in> set (calls (ServeHTTP p n w r))" using assms(1) by simp
  from ServeHTTP_calls[OF q]
  have k: "Key (signer p) \<noteq> []" "Secret (signer p) \<noteq> []" and qq: "q = signedRequest p r"
    by simp_all
  have ns: "\<not> (Method r = ''GET'' \<and> (isEventStreamPath (Path (URL r))
                                        \<or> isDiscoveryPath (Path (URL r))))"
    using ServeHTTP_shortcut[of r p n w] assms(1) by auto
  have cs: "snd (forwardRequest p r) = [q]"
    using ServeHTTP_forward(1)[OF ns, of p n w] assms(1) by simp
  then have pre: "failure (Body r) = None"
      "list_all validHeaderFieldByte (if Method r = [] then ''GET'' else Method r)"
    using forwardRequest_called[of p r] by simp_all
  have t: "timedOut \<longleftrightarrow> errorsIs e ContextCanceled \<or> errorsIs e ContextDeadlineExceeded
              \<or> (case asNetError e of None \<Rightarrow> False | Some netErr \<Rightarrow> Timeout netErr)"
    unfolding timedOut_def by (cases "asNetError e") simp_all
  have fr: "forwardRequest p r =
      (Inl (if timedOut then httpError 504 e
            else otherError (WrapError ''perform upstream request'' e)), [q])"
    using forwardRequest_reached[OF pre k] assms(2) t
    by (simp add: qq[symmetric] StatusGatewayTimeout_def)
  have o: "out (ServeHTTP p n w r) =
      (if timedOut then Error w ''Gateway Timeout'' 504 else Error w ''Bad Gateway'' 502)"
    using ns by (auto simp: ServeHTTP_def fr StatusBadGateway_def StatusText_def)
  show ?thesis
    using fr o ServeHTTP_forward(2)[OF ns, of p n w] assms(3,4)
    by (simp add: Error_fresh)
qed


lemma timeoutProxy_calls:
  "calls (ServeHTTP timeoutProxyFixture 0 recorderFixture postMcpFixture)
     = [signedRequest timeoutProxyFixture postMcpFixture]"
proof -
  have ns: "\<not> (Method postMcpFixture = ''GET'' \<and> (isEventStreamPath (Path (URL postMcpFixture))
                                        \<or> isDiscoveryPath (Path (URL postMcpFixture))))"
    by (simp add: postMcp_facts)
  have k: "Key (signer timeoutProxyFixture) \<noteq> []" "Secret (signer timeoutProxyFixture) \<noteq> []"
    by (simp_all add: timeoutProxyFixture_def New_def NewSigner_def configFixture_def)
  have m: "list_all validHeaderFieldByte
             (if Method postMcpFixture = [] then ''GET'' else Method postMcpFixture)"
    using post_is_token by (simp add: postMcp_facts)
  show ?thesis
    using ServeHTTP_forward(1)[OF ns, of timeoutProxyFixture 0 recorderFixture]
      forwardRequest_reached[OF postMcp_facts(3) m k]
    by simp
qed

theorem transport_failure_status_witness:
  "calls (ServeHTTP timeoutProxyFixture 0 recorderFixture postMcpFixture)
     = [signedRequest timeoutProxyFixture postMcpFixture]
   \<and> client timeoutProxyFixture (signedRequest timeoutProxyFixture postMcpFixture)
       = Inl deadlineError
   \<and> fresh recorderFixture \<and> budget recorderFixture \<noteq> Some 0
   \<and> fst (forwardRequest timeoutProxyFixture postMcpFixture) = Inl (httpError 504 deadlineError)
   \<and> sent (out (ServeHTTP timeoutProxyFixture 0 recorderFixture postMcpFixture))
       = [WroteHeader 504 errorHeader, Wrote (''Gateway Timeout'' @ [CHR 0x0A])]"
proof -
  have c: "client timeoutProxyFixture (signedRequest timeoutProxyFixture postMcpFixture)
       = Inl deadlineError"
    by (simp add: timeoutProxyFixture_def New_def)
  have f: "fresh recorderFixture" "budget recorderFixture \<noteq> Some 0"
    by (simp_all add: fresh_def recorderFixture_def)
  have t: "errorsIs deadlineError ContextDeadlineExceeded"
    by (simp add: deadlineError_def)
  show ?thesis
    using transport_failure_status[OF timeoutProxy_calls c f] timeoutProxy_calls c f t
    by simp
qed

lemma TrimSuffix_slash:
  "TrimSuffix path ''/'' = (if path \<noteq> [] \<and> last path = CHR ''/'' then butlast path else path)"
proof (cases "path = []")
  case True
  then show ?thesis by (simp add: TrimSuffix_def HasSuffix_def)
next
  case False
  then obtain xs x where p: "path = xs @ [x]" by (metis append_butlast_last_id)
  show ?thesis by (auto simp: TrimSuffix_def HasSuffix_def p)
qed

lemma isEventStreamPath_iff:
  "isEventStreamPath path \<longleftrightarrow> path = ''/mcp'' \<or> path = ''/mcp/''"
proof (cases "path \<noteq> [] \<and> last path = CHR ''/''")
  case True
  then obtain xs where p: "path = xs @ ''/''" by (metis append_butlast_last_id)
  show ?thesis by (auto simp: isEventStreamPath_def TrimSuffix_slash p Let_def)
next
  case False
  then show ?thesis by (auto simp: isEventStreamPath_def TrimSuffix_slash Let_def)
qed


section \<open>The two shortcut paths\<close>





lemma forwarded_canonical: "map CanonicalMIMEHeaderKey forwardedNames = forwardedNames"
  by code_simp

lemma canon_forwarded:
  "CanonicalMIMEHeaderKey ''X-Forwarded-For'' = ''X-Forwarded-For''"
  "CanonicalMIMEHeaderKey ''X-Forwarded-Proto'' = ''X-Forwarded-Proto''"
  "CanonicalMIMEHeaderKey ''X-Forwarded-Host'' = ''X-Forwarded-Host''"
  using forwarded_canonical by (simp_all add: forwardedNames_def)

lemma augment_wellFormed: "wellFormed h \<Longrightarrow> wellFormed (augmentForwardHeaders h r)"
  by (auto simp: augmentForwardHeaders_def Let_def wellFormed_Set split: option.splits)

lemma augment_keys:
  "fst ` set (augmentForwardHeaders h r) \<subseteq> fst ` set h \<union> set forwardedNames"
  by (auto simp: augmentForwardHeaders_def Let_def keys_Set canon_forwarded forwardedNames_def
      split: option.splits if_splits)

lemma outboundHeader_wellFormed: "wellFormed (outboundHeader p r)"
  by (simp add: outboundHeader_def Let_def wellFormed_Set augment_wellFormed
      cleanHopHeaders_wellFormed copyHeaders_wellFormed wellFormed_Nil)

lemma outboundHeader_keys:
  "fst ` set (outboundHeader p r) \<subseteq>
     (CanonicalMIMEHeaderKey ` fst ` set (Header r) - set hopHeaders) \<union> set forwardedNames
     \<union> (if SessionValue (cfg p) \<noteq> [] then {CanonicalMIMEHeaderKey (SessionHeader (cfg p))} else {})"
proof -
  have "fst ` set (augmentForwardHeaders (cleanHopHeaders (copyHeaders [] (Header r))) r)
      \<subseteq> (CanonicalMIMEHeaderKey ` fst ` set (Header r) - set hopHeaders) \<union> set forwardedNames"
    using augment_keys[of "cleanHopHeaders (copyHeaders [] (Header r))" r]
      copyHeaders_keys[of "[]" "Header r"]
    unfolding cleanHopHeaders_keys by (simp add: subset_iff) blast
  then show ?thesis
    by (auto simp: outboundHeader_def Let_def keys_Set)
qed

lemma signedRequest_Header:
  assumes "Key (signer p) \<noteq> []" and "Secret (signer p) \<noteq> []"
  shows "Header (signedRequest p r) =
     Header_Set (Header_Set (Header_Set (outboundHeader p r) HeaderAPIKey (Key (signer p)))
        HeaderSignature
        (EncodeToString (hmacSHA256 (bytes (Secret (signer p)))
           (bytes (Method (signedRequest p r) @ [CHR 0x0A] @ Path (URL (signedRequest p r))
                   @ [CHR 0x0A] @ Format_RFC3339 (Now (signer p) ()))))))
        HeaderTimestamp (Format_RFC3339 (Now (signer p) ()))"
  using assms by (simp add: signedRequest_def AttachSignature_def Let_def unsignedRequest_def)

lemma signedRequest_wellFormed:
  assumes "Key (signer p) \<noteq> []" and "Secret (signer p) \<noteq> []"
  shows "wellFormed (Header (signedRequest p r))"
  unfolding signedRequest_Header[OF assms]
  by (intro wellFormed_Set outboundHeader_wellFormed)

lemma sig_names_valid:
  "list_all validHeaderFieldByte ''x-api-key-id''"
  "list_all validHeaderFieldByte ''x-signature''"
  "list_all validHeaderFieldByte ''x-timestamp''"
  by code_simp+

lemma sig_names_lower:
  "ToLower ''x-api-key-id'' = ''x-api-key-id''"
  "ToLower ''x-signature'' = ''x-signature''"
  "ToLower ''x-timestamp'' = ''x-timestamp''"
  by code_simp+

section \<open>The signature headers on the outbound request\<close>

text \<open>
  C10. On every request that reaches the transport, each of \<^verbatim>\<open>x-api-key-id\<close>,
  \<^verbatim>\<open>x-signature\<close> and \<^verbatim>\<open>x-timestamp\<close> has exactly one value, the one the signer
  computed from key, secret, clock, method and path: the header map has each key once,
  and a key that equals one of the three names up to case is the canonical key under
  which the signer stored its value. Whatever the client sent under these names was
  copied first and then overwritten.
\<close>

theorem signature_headers_exclusive:
  fixes p :: Proxy and r q :: request and w :: writer and n :: nat
  assumes "q \<in> set (calls (ServeHTTP p n w r))"
  defines "ts \<equiv> Format_RFC3339 (Now (signer p) ())"
  shows "Values (Header q) ''x-api-key-id'' = [Key (signer p)]
       \<and> Values (Header q) ''x-signature'' =
           [EncodeToString (hmacSHA256 (bytes (Secret (signer p)))
              (bytes (Method q @ [CHR 0x0A] @ Path (URL q) @ [CHR 0x0A] @ ts)))]
       \<and> Values (Header q) ''x-timestamp'' = [ts]
       \<and> distinct (map fst (Header q))
       \<and> (\<forall>k \<in> fst ` set (Header q).
            \<forall>name \<in> {''x-api-key-id'', ''x-signature'', ''x-timestamp''}.
              ToLower k = name \<longrightarrow> k = CanonicalMIMEHeaderKey name)"
proof -
  from ServeHTTP_calls[OF assms(1)]
  have k: "Key (signer p) \<noteq> []" "Secret (signer p) \<noteq> []" and q: "q = signedRequest p r"
    by simp_all
  have names: "''x-signature'' = HeaderSignature" "''x-timestamp'' = HeaderTimestamp"
    "''x-api-key-id'' = HeaderAPIKey"
    by (simp_all add: HeaderSignature_def HeaderTimestamp_def HeaderAPIKey_def)
  have v: "Values (Header q) ''x-api-key-id'' = [Key (signer p)]
       \<and> Values (Header q) ''x-signature'' =
           [EncodeToString (hmacSHA256 (bytes (Secret (signer p)))
              (bytes (Method q @ [CHR 0x0A] @ Path (URL q) @ [CHR 0x0A] @ ts)))]
       \<and> Values (Header q) ''x-timestamp'' = [ts]"
    unfolding q signedRequest_Header[OF k] names ts_def
    by (simp add: Values_Set canon_sig_names)
  have wf: "wellFormed (Header q)"
    unfolding q by (rule signedRequest_wellFormed[OF k])
  then have d: "distinct (map fst (Header q))" by (simp add: wellFormed_def)
  have u: "k = CanonicalMIMEHeaderKey name"
    if "k \<in> fst ` set (Header q)" "name \<in> {''x-api-key-id'', ''x-signature'', ''x-timestamp''}"
      "ToLower k = name" for k name
  proof -
    have c: "CanonicalMIMEHeaderKey k = k"
      using wf that(1) by (auto simp: wellFormed_def list_all_iff)
    have "ToLower k = ToLower name \<and> list_all validHeaderFieldByte name"
      using that(2,3) sig_names_valid sig_names_lower by auto
    then show ?thesis using canon_key_unique[OF c] by blast
  qed
  show ?thesis using v d u by blast
qed

lemma forwarded_calls:
  assumes "\<not> (Method r = ''GET'' \<and> (isEventStreamPath (Path (URL r)) \<or> isDiscoveryPath (Path (URL r))))"
    and "failure (Body r) = None"
    and "list_all validHeaderFieldByte (if Method r = [] then ''GET'' else Method r)"
    and "Key (signer p) \<noteq> []" and "Secret (signer p) \<noteq> []"
  shows "calls (ServeHTTP p n w r) = [signedRequest p r]"
  using ServeHTTP_forward(1)[OF assms(1), of p n w] forwardRequest_reached[OF assms(2-5)]
  by simp

lemma proxyFixture_keys:
  "Key (signer proxyFixture) = ''key-id''" "Secret (signer proxyFixture) = ''secret-value''"
  "Now (signer proxyFixture) () = UTC (Unix 1700000000)"
  by (simp_all add: proxyFixture_def New_def NewSigner_def configFixture_def fixedClock_def)

lemma spoofing_facts:
  "Method spoofingRequestFixture = ''POST''" "Path (URL spoofingRequestFixture) = ''/mcp''"
  "failure (Body spoofingRequestFixture) = None"
  by (simp_all add: spoofingRequestFixture_def postMcp_facts)

lemma spoofing_calls:
  "calls (ServeHTTP proxyFixture 0 recorderFixture spoofingRequestFixture)
     = [signedRequest proxyFixture spoofingRequestFixture]"
  by (rule forwarded_calls) (simp_all add: spoofing_facts proxyFixture_keys post_is_token[simplified])

theorem signature_headers_exclusive_witness:
  "signedRequest proxyFixture spoofingRequestFixture
     \<in> set (calls (ServeHTTP proxyFixture 0 recorderFixture spoofingRequestFixture))
   \<and> Values (Header spoofingRequestFixture) ''x-api-key-id'' = [''intruder'']
   \<and> Values (Header (signedRequest proxyFixture spoofingRequestFixture)) ''x-api-key-id''
       = [''key-id'']
   \<and> Values (Header (signedRequest proxyFixture spoofingRequestFixture)) ''x-timestamp''
       = [''2023-11-14T22:13:20Z'']"
proof -
  have m: "signedRequest proxyFixture spoofingRequestFixture
     \<in> set (calls (ServeHTTP proxyFixture 0 recorderFixture spoofingRequestFixture))"
    by (simp add: spoofing_calls)
  have c: "CanonicalMIMEHeaderKey ''x-api-key-id'' = ''X-Api-Key-Id''"
    using canon_sig_names(1) by (simp add: HeaderAPIKey_def)
  have v: "Values (Header spoofingRequestFixture) ''x-api-key-id'' = [''intruder'']"
    by (simp add: Values_def c spoofingRequestFixture_def)
  show ?thesis
    using signature_headers_exclusive[OF m] m v
    by (simp add: proxyFixture_keys fixture_timestamp)
qed

lemma forwarded_not_hop: "set forwardedNames \<inter> set hopHeaders = {}"
  by (simp add: forwardedNames_def hopHeaders_def)

lemma sig_not_hop:
  "CanonicalMIMEHeaderKey HeaderAPIKey \<notin> set hopHeaders"
  "CanonicalMIMEHeaderKey HeaderSignature \<notin> set hopHeaders"
  "CanonicalMIMEHeaderKey HeaderTimestamp \<notin> set hopHeaders"
  by (simp_all add: canon_sig_names hopHeaders_def)

lemma no_hop_key:
  assumes "wellFormed h" and "fst ` set h \<inter> set hopHeaders = {}"
    and "k \<in> fst ` set h" and "name \<in> set hopHeaders"
  shows "ToLower k \<noteq> ToLower name"
proof
  assume e: "ToLower k = ToLower name"
  have "CanonicalMIMEHeaderKey k = k"
    using assms(1,3) by (auto simp: wellFormed_def list_all_iff)
  from hop_key_canonical[OF this assms(4) e] assms(2,3) show False by auto
qed

lemma relay_sent:
  assumes "\<not> (Method r = ''GET'' \<and> (isEventStreamPath (Path (URL r)) \<or> isDiscoveryPath (Path (URL r))))"
    and "fst (forwardRequest p r) = Inr resp" and "fresh w"
  shows "sent (out (ServeHTTP p n w r)) =
           WroteHeader (StatusCode resp) (copyResponseHeaders [] (cleanHopHeaders (RespHeader resp)))
           # (if content (relayBody resp) = [] \<or> budget w = Some 0 then []
              else [Wrote (content (relayBody resp))])"
proof -
  obtain cs where f: "forwardRequest p r = (Inr resp, cs)"
    using assms(2) by (metis prod.collapse)
  have w: "wheader w = []" "sent w = []" using assms(3) by (simp_all add: fresh_def)
  have s: "sent (fst (Copy (WriteHeader (w\<lparr>wheader := h\<rparr>) c) rd))
      = WroteHeader c h # (if content rd = [] \<or> budget w = Some 0 then [] else [Wrote (content rd)])"
    for h c rd
    by (auto simp: Copy_def Write_def WriteHeader_def wroteHeader_def w split: option.splits nat.splits)
  have o: "out (ServeHTTP p n w r) =
      fst (Copy (WriteHeader (w\<lparr>wheader := copyResponseHeaders [] (cleanHopHeaders (RespHeader resp))\<rparr>)
                   (StatusCode resp)) (relayBody resp))"
    using assms(1) by (auto simp: ServeHTTP_def f Let_def relayBody_def w)
  show ?thesis unfolding o s ..
qed

lemma signedRequest_keys:
  assumes "Key (signer p) \<noteq> []" and "Secret (signer p) \<noteq> []"
  shows "fst ` set (Header (signedRequest p r)) =
     {CanonicalMIMEHeaderKey HeaderAPIKey, CanonicalMIMEHeaderKey HeaderSignature,
      CanonicalMIMEHeaderKey HeaderTimestamp} \<union> fst ` set (outboundHeader p r)"
  unfolding signedRequest_Header[OF assms] by (auto simp: keys_Set)

section \<open>Hop-by-hop headers\<close>

text \<open>
  C2, as the code has it. On every request that reaches the transport no key of the header
  map equals one of the nine hop-by-hop names up to case, whatever the client sent,
  provided the configured session header is not one of the nine names or no session
  value is configured (the session header is set after the stripping). On every upstream
  response that is relayed, whose header map is as the transport builds it, no key of
  the headers sent to the client equals one of the nine names up to case, whatever the
  upstream sent.
\<close>

theorem hop_headers_absent:
  fixes p :: Proxy and r q :: request and w :: writer and n :: nat and resp :: response
  shows "(q \<in> set (calls (ServeHTTP p n w r))
          \<and> (SessionValue (cfg p) = []
               \<or> CanonicalMIMEHeaderKey (SessionHeader (cfg p)) \<notin> set hopHeaders) \<longrightarrow>
          (\<forall>k \<in> fst ` set (Header q). \<forall>name \<in> set hopHeaders. ToLower k \<noteq> ToLower name))
       \<and> (\<not> (Method r = ''GET'' \<and> (isEventStreamPath (Path (URL r))
                                        \<or> isDiscoveryPath (Path (URL r))))
          \<and> fst (forwardRequest p r) = Inr resp \<and> wellFormed (RespHeader resp) \<and> fresh w \<longrightarrow>
          (\<forall>k \<in> fst ` set (headerOf (sent (out (ServeHTTP p n w r)))).
             \<forall>name \<in> set hopHeaders. ToLower k \<noteq> ToLower name))"
proof -
  have a: "\<forall>k \<in> fst ` set (Header q). \<forall>name \<in> set hopHeaders. ToLower k \<noteq> ToLower name"
    if c: "q \<in> set (calls (ServeHTTP p n w r))"
      and s: "SessionValue (cfg p) = []
               \<or> CanonicalMIMEHeaderKey (SessionHeader (cfg p)) \<notin> set hopHeaders"
  proof -
    from ServeHTTP_calls[OF c]
    have k: "Key (signer p) \<noteq> []" "Secret (signer p) \<noteq> []" and q: "q = signedRequest p r"
      by simp_all
    have wf: "wellFormed (Header q)"
      unfolding q by (rule signedRequest_wellFormed[OF k])
    have "fst ` set (outboundHeader p r) \<inter> set hopHeaders = {}"
      using outboundHeader_keys[of p r] forwarded_not_hop s
      by (auto split: if_splits)
    then have "fst ` set (Header q) \<inter> set hopHeaders = {}"
      unfolding q signedRequest_keys[OF k] using sig_not_hop by auto
    with wf show ?thesis using no_hop_key by blast
  qed
  have b: "\<forall>k \<in> fst ` set (headerOf (sent (out (ServeHTTP p n w r)))).
             \<forall>name \<in> set hopHeaders. ToLower k \<noteq> ToLower name"
    if ns: "\<not> (Method r = ''GET'' \<and> (isEventStreamPath (Path (URL r))
                                        \<or> isDiscoveryPath (Path (URL r))))"
      and f: "fst (forwardRequest p r) = Inr resp" and wr: "wellFormed (RespHeader resp)"
      and fw: "fresh w"
  proof -
    let ?h = "copyHeaders [] (cleanHopHeaders (RespHeader resp))"
    have h: "headerOf (sent (out (ServeHTTP p n w r))) = ?h"
      by (simp add: relay_sent[OF ns f fw] copyResponseHeaders_eq)
    have wf: "wellFormed ?h"
      by (simp add: copyHeaders_wellFormed wellFormed_Nil)
    have "fst ` set ?h \<subseteq> CanonicalMIMEHeaderKey ` (fst ` set (RespHeader resp) - set hopHeaders)"
      using copyHeaders_keys[of "[]" "cleanHopHeaders (RespHeader resp)"]
      by (simp add: cleanHopHeaders_keys)
    moreover have "CanonicalMIMEHeaderKey k = k" if "k \<in> fst ` set (RespHeader resp)" for k
      using wr that by (auto simp: wellFormed_def list_all_iff)
    ultimately have "fst ` set ?h \<inter> set hopHeaders = {}" by force
    with wf show ?thesis unfolding h using no_hop_key by blast
  qed
  show ?thesis using a b by blast
qed

lemma canon_Connection: "CanonicalMIMEHeaderKey ''Connection'' = ''Connection''"
  by code_simp

lemma connectionSession_facts:
  "Key (signer connectionSessionFixture) = ''key-id''"
  "Secret (signer connectionSessionFixture) = ''secret-value''"
  "SessionHeader (cfg connectionSessionFixture) = ''Connection''"
  "SessionValue (cfg connectionSessionFixture) = ''session-123''"
  by (simp_all add: connectionSessionFixture_def New_def NewSigner_def configFixture_def)

text \<open>
  With \<^verbatim>\<open>Connection\<close> configured as the session header, the outbound request carries
  a \<^verbatim>\<open>Connection\<close> header.
\<close>

theorem hop_headers_session_counterexample:
  "SessionHeader (cfg connectionSessionFixture) = ''Connection''
   \<and> calls (ServeHTTP connectionSessionFixture 0 recorderFixture postMcpFixture)
       = [signedRequest connectionSessionFixture postMcpFixture]
   \<and> Values (Header (signedRequest connectionSessionFixture postMcpFixture)) ''Connection''
       = [''session-123'']"
proof -
  have k: "Key (signer connectionSessionFixture) \<noteq> []" "Secret (signer connectionSessionFixture) \<noteq> []"
    by (simp_all add: connectionSession_facts)
  have c: "calls (ServeHTTP connectionSessionFixture 0 recorderFixture postMcpFixture)
       = [signedRequest connectionSessionFixture postMcpFixture]"
    by (rule forwarded_calls) (simp_all add: postMcp_facts k post_is_token[simplified])
  have v: "Values (Header (signedRequest connectionSessionFixture postMcpFixture)) ''Connection''
       = [''session-123'']"
    unfolding signedRequest_Header[OF k]
    by (simp add: Values_Set canon_sig_names canon_Connection outboundHeader_def Let_def
        connectionSession_facts)
  show ?thesis using c v by (simp add: connectionSession_facts)
qed

lemma hopProxy_forward:
  "forwardRequest hopProxyFixture postMcpFixture
     = (Inr hopResponseFixture, [signedRequest hopProxyFixture postMcpFixture])"
proof -
  have k: "Key (signer hopProxyFixture) \<noteq> []" "Secret (signer hopProxyFixture) \<noteq> []"
    by (simp_all add: hopProxyFixture_def New_def NewSigner_def configFixture_def)
  have m: "list_all validHeaderFieldByte
             (if Method postMcpFixture = [] then ''GET'' else Method postMcpFixture)"
    using post_is_token by (simp add: postMcp_facts)
  have c: "client hopProxyFixture q = Inr hopResponseFixture" for q
    by (simp add: hopProxyFixture_def New_def)
  show ?thesis
    using forwardRequest_reached[OF postMcp_facts(3) m k] by (simp add: c)
qed

lemma hopResponse_wellFormed: "wellFormed (RespHeader hopResponseFixture)"
  by code_simp

lemma spoofing_Connection: "Values (Header spoofingRequestFixture) ''Connection'' = [''keep-alive'']"
  by (simp add: Values_def canon_Connection spoofingRequestFixture_def)

theorem hop_headers_absent_witness:
  "signedRequest proxyFixture spoofingRequestFixture
     \<in> set (calls (ServeHTTP proxyFixture 0 recorderFixture spoofingRequestFixture))
   \<and> CanonicalMIMEHeaderKey (SessionHeader (cfg proxyFixture)) \<notin> set hopHeaders
   \<and> Values (Header spoofingRequestFixture) ''Connection'' = [''keep-alive'']
   \<and> ''Connection'' \<notin> fst ` set (Header (signedRequest proxyFixture spoofingRequestFixture))
   \<and> fst (forwardRequest hopProxyFixture postMcpFixture) = Inr hopResponseFixture
   \<and> wellFormed (RespHeader hopResponseFixture) \<and> fresh recorderFixture
   \<and> Values (RespHeader hopResponseFixture) ''Connection'' = [''close'']
   \<and> ''Connection'' \<notin> fst ` set (headerOf (sent (out
          (ServeHTTP hopProxyFixture 0 recorderFixture postMcpFixture))))"
proof -
  have m: "signedRequest proxyFixture spoofingRequestFixture
     \<in> set (calls (ServeHTTP proxyFixture 0 recorderFixture spoofingRequestFixture))"
    by (simp add: spoofing_calls)
  have s: "CanonicalMIMEHeaderKey (SessionHeader (cfg proxyFixture)) \<notin> set hopHeaders"
    by (simp add: proxyFixture_def New_def configFixture_def hopHeaders_def) code_simp
  have ns: "\<not> (Method postMcpFixture = ''GET'' \<and> (isEventStreamPath (Path (URL postMcpFixture))
                                        \<or> isDiscoveryPath (Path (URL postMcpFixture))))"
    by (simp add: postMcp_facts)
  have f: "fst (forwardRequest hopProxyFixture postMcpFixture) = Inr hopResponseFixture"
    by (simp add: hopProxy_forward)
  have fw: "fresh recorderFixture" by (simp add: fresh_def recorderFixture_def)
  have c: "''Connection'' \<in> set hopHeaders" by (simp add: hopHeaders_def)
  have v: "Values (RespHeader hopResponseFixture) ''Connection'' = [''close'']"
    by (simp add: Values_def canon_Connection hopResponseFixture_def)
  note t = hop_headers_absent[of "signedRequest proxyFixture spoofingRequestFixture" proxyFixture 0
      recorderFixture spoofingRequestFixture]
  note u = hop_headers_absent[of _ hopProxyFixture 0 recorderFixture postMcpFixture
      hopResponseFixture]
  have a: "''Connection'' \<notin> fst ` set (Header (signedRequest proxyFixture spoofingRequestFixture))"
    using t m s c by blast
  have b: "''Connection'' \<notin> fst ` set (headerOf (sent (out
          (ServeHTTP hopProxyFixture 0 recorderFixture postMcpFixture))))"
    using u ns f hopResponse_wellFormed fw c by blast
  show ?thesis
    using m s a b f hopResponse_wellFormed fw v spoofing_Connection by simp
qed

lemma distinct_filter_key:
  "distinct (map fst h) \<Longrightarrow>
   concat (map snd (filter (\<lambda>e. fst e = c) h)) = (case map_of h c of None \<Rightarrow> [] | Some vs \<Rightarrow> vs)"
proof (induction h)
  case Nil
  show ?case by simp
next
  case (Cons a h)
  obtain k vs where a: "a = (k, vs)" by (cases a)
  show ?case
  proof (cases "k = c")
    case True
    then have "filter (\<lambda>e. fst e = c) h = []"
      using Cons.prems by (auto simp: a filter_empty_conv)
    then show ?thesis by (simp add: a True)
  next
    case False
    then show ?thesis using Cons by (simp add: a)
  qed
qed

lemma copyHeaders_wellFormed_Values:
  assumes "wellFormed h"
  shows "Values (copyHeaders [] h) k = Values h k"
proof -
  have c: "CanonicalMIMEHeaderKey (fst e) = fst e" if "e \<in> set h" for e
    using assms that by (auto simp: wellFormed_def list_all_iff)
  have "filter (\<lambda>e. CanonicalMIMEHeaderKey (fst e) = CanonicalMIMEHeaderKey k) h
      = filter (\<lambda>e. fst e = CanonicalMIMEHeaderKey k) h"
    by (rule filter_cong) (simp_all add: c)
  then show ?thesis
    using distinct_filter_key[of h "CanonicalMIMEHeaderKey k"] assms
    by (simp add: copyHeaders_Values wellFormed_def) (simp add: Values_def)
qed

lemma relayBody_error:
  assumes "StatusCode resp \<ge> 400" and "failure (RespBody resp) = None"
  shows "content (relayBody resp) = take 65536 (content (RespBody resp))"
  using assms
  by (simp add: relayBody_def StatusBadRequest_def ReadAllLimit_def maxLogBody_def NewReader_def)

section \<open>Upstream error responses\<close>

text \<open>
  C4. An upstream response with a status of 400 or more, whose body is read without
  error, is relayed and not turned into a gateway error: the client receives the
  upstream status, the first min(length of the body, 65536) bytes of the upstream body
  unchanged, and for every header name the values the upstream sent, none for the nine
  hop-by-hop names.
\<close>

theorem error_body_relayed:
  fixes p :: Proxy and r :: request and w :: writer and n :: nat and resp :: response
  assumes "\<not> (Method r = ''GET'' \<and> (isEventStreamPath (Path (URL r))
                                        \<or> isDiscoveryPath (Path (URL r))))"
    and "fst (forwardRequest p r) = Inr resp"
    and "StatusCode resp \<ge> 400"
    and "failure (RespBody resp) = None" and "wellFormed (RespHeader resp)"
    and "fresh w" and "budget w \<noteq> Some 0"
  shows "returned (ServeHTTP p n w r)
       \<and> statusOf (sent (out (ServeHTTP p n w r))) = Some (StatusCode resp)
       \<and> bodyOf (sent (out (ServeHTTP p n w r))) = take 65536 (content (RespBody resp))
       \<and> length (bodyOf (sent (out (ServeHTTP p n w r))))
           = min (length (content (RespBody resp))) 65536
       \<and> (\<forall>k. Values (headerOf (sent (out (ServeHTTP p n w r)))) k =
              (if CanonicalMIMEHeaderKey k \<in> set hopHeaders then []
               else Values (RespHeader resp) k))"
proof -
  note s = relay_sent[OF assms(1,2,6), of n]
  have b: "content (relayBody resp) = take 65536 (content (RespBody resp))"
    by (rule relayBody_error[OF assms(3,4)])
  have h: "Values (headerOf (sent (out (ServeHTTP p n w r)))) k =
              (if CanonicalMIMEHeaderKey k \<in> set hopHeaders then []
               else Values (RespHeader resp) k)" for k
    by (simp add: s copyResponseHeaders_eq copyHeaders_wellFormed_Values
        cleanHopHeaders_wellFormed assms(5) cleanHopHeaders_Values)
  have body: "bodyOf (sent (out (ServeHTTP p n w r))) = take 65536 (content (RespBody resp))"
    using assms(7) by (simp add: s b)
  show ?thesis
    using ServeHTTP_forward(2)[OF assms(1), of p n w] h body by (simp add: s)
qed

theorem error_body_relayed_witness:
  "fst (forwardRequest hopProxyFixture postMcpFixture) = Inr hopResponseFixture
   \<and> StatusCode hopResponseFixture \<ge> 400
   \<and> failure (RespBody hopResponseFixture) = None
   \<and> wellFormed (RespHeader hopResponseFixture)
   \<and> fresh recorderFixture \<and> budget recorderFixture \<noteq> Some 0
   \<and> statusOf (sent (out (ServeHTTP hopProxyFixture 0 recorderFixture postMcpFixture))) = Some 500
   \<and> bodyOf (sent (out (ServeHTTP hopProxyFixture 0 recorderFixture postMcpFixture)))
       = ''upstream-error''
   \<and> Values (headerOf (sent (out (ServeHTTP hopProxyFixture 0 recorderFixture postMcpFixture))))
        ''X-Trace'' = [''a'', ''b'']
   \<and> Values (headerOf (sent (out (ServeHTTP hopProxyFixture 0 recorderFixture postMcpFixture))))
        ''Transfer-Encoding'' = []"
proof -
  have ns: "\<not> (Method postMcpFixture = ''GET'' \<and> (isEventStreamPath (Path (URL postMcpFixture))
                                        \<or> isDiscoveryPath (Path (URL postMcpFixture))))"
    by (simp add: postMcp_facts)
  have f: "fst (forwardRequest hopProxyFixture postMcpFixture) = Inr hopResponseFixture"
    by (simp add: hopProxy_forward)
  have st: "StatusCode hopResponseFixture \<ge> 400" "failure (RespBody hopResponseFixture) = None"
    "StatusCode hopResponseFixture = 500" "content (RespBody hopResponseFixture) = ''upstream-error''"
    by (simp_all add: hopResponseFixture_def NewReader_def)
  have fw: "fresh recorderFixture" "budget recorderFixture \<noteq> Some 0"
    by (simp_all add: fresh_def recorderFixture_def)
  have c: "CanonicalMIMEHeaderKey ''X-Trace'' = ''X-Trace''"
    "CanonicalMIMEHeaderKey ''Transfer-Encoding'' = ''Transfer-Encoding''"
    by code_simp+
  have v: "Values (RespHeader hopResponseFixture) ''X-Trace'' = [''a'', ''b'']"
    by (simp add: Values_def c hopResponseFixture_def)
  have hop: "''X-Trace'' \<notin> set hopHeaders" "''Transfer-Encoding'' \<in> set hopHeaders"
    by (simp_all add: hopHeaders_def)
  show ?thesis
    using error_body_relayed[OF ns f st(1,2) hopResponse_wellFormed fw, of 0]
      f st hopResponse_wellFormed fw
    by (simp add: c v hop)
qed

lemma canon_sse_names:
  "CanonicalMIMEHeaderKey ''Content-Type'' = ''Content-Type''"
  "CanonicalMIMEHeaderKey ''Cache-Control'' = ''Cache-Control''"
  "CanonicalMIMEHeaderKey ''Connection'' = ''Connection''"
  by code_simp+

lemma Write_budget:
  "budget w \<noteq> Some 0 \<Longrightarrow> snd (Write w d) = None
     \<and> budget (fst (Write w d)) = map_option (\<lambda>n. n - 1) (budget w)
     \<and> flusher (fst (Write w d)) = flusher w"
  by (auto simp: Write_def WriteHeader_def Let_def split: option.splits nat.splits)

lemma Write_fails: "budget w = Some 0 \<Longrightarrow> Write w d = (w, Some (ErrorString ''write: broken pipe''))"
  by (simp add: Write_def)

lemma Flush_budget: "budget (Flush w) = budget w"
  by (simp add: Flush_def WriteHeader_def Let_def)

lemma loop_returned:
  "snd (heartbeatLoop n e done w) \<longleftrightarrow>
     (\<exists>t. done = Some t \<and> t \<le> e + heartbeat * (n + 1)) \<or> (\<exists>m. budget w = Some m \<and> m < n)"
proof (induction n arbitrary: e w)
  case 0
  show ?case by (cases "done") simp_all
next
  case (Suc n)
  show ?case
  proof (cases "case done of Some t \<Rightarrow> t \<le> e + heartbeat | None \<Rightarrow> False")
    case True
    then show ?thesis by (auto split: option.splits)
  next
    case nd: False
    show ?thesis
    proof (cases "budget w = Some 0")
      case True
      then show ?thesis using nd by (simp add: Write_fails)
    next
      case False
      obtain w1 where w1: "Write w keepaliveLine = (w1, None)"
        and b1: "budget w1 = map_option (\<lambda>n. n - 1) (budget w)"
        using Write_budget[OF False, of keepaliveLine] by (metis prod.collapse)
      have "snd (heartbeatLoop (Suc n) e done w) = snd (heartbeatLoop n (e + heartbeat) done (Flush w1))"
        using nd w1 by (simp add: keepaliveLine_def)
      also have "\<dots> \<longleftrightarrow> (\<exists>t. done = Some t \<and> t \<le> e + heartbeat + heartbeat * (n + 1))
                       \<or> (\<exists>m. budget w1 = Some m \<and> m < n)"
        by (simp add: Suc.IH Flush_budget)
      also have "\<dots> \<longleftrightarrow> (\<exists>t. done = Some t \<and> t \<le> e + heartbeat * (Suc n + 1))
                       \<or> (\<exists>m. budget w = Some m \<and> m < Suc n)"
        using False by (cases "budget w") (auto simp: b1)
      finally show ?thesis .
    qed
  qed
qed

lemma loop_Suc:
  "heartbeatLoop (Suc n) e done w =
     (if (case done of Some t \<Rightarrow> t \<le> e + heartbeat | None \<Rightarrow> False) then (w, True)
      else (case Write w keepaliveLine of
              (w1, Some err) \<Rightarrow> (w1, True)
            | (w1, None) \<Rightarrow> heartbeatLoop n (e + heartbeat) done (Flush w1)))"
  by (simp add: keepaliveLine_def)

lemma loop_sent:
  assumes "budget w = None" and "wroteHeader w"
  shows "sent (fst (heartbeatLoop n e done w)) =
     sent w @ concat (replicate (case done of None \<Rightarrow> n | Some t \<Rightarrow> min n ((t - e - 1) div heartbeat))
                        [Wrote keepaliveLine, Flushed])"
  using assms
proof (induction n arbitrary: e w)
  case 0
  show ?case by (cases "done") simp_all
next
  case (Suc n)
  let ?X = "[Wrote keepaliveLine, Flushed]"
  let ?w1 = "w\<lparr>sent := sent w @ [Wrote keepaliveLine]\<rparr>"
  let ?w2 = "w\<lparr>sent := sent w @ ?X\<rparr>"
  have wr: "Write w keepaliveLine = (?w1, None)"
    using Suc.prems by (simp add: Write_def WriteHeader_def Let_def)
  have fl: "Flush ?w1 = ?w2"
    using Suc.prems by (simp add: Flush_def WriteHeader_def wroteHeader_def Let_def)
  have pre: "budget ?w2 = None" "wroteHeader ?w2"
    using Suc.prems by (simp_all add: wroteHeader_def)
  have step: "\<not> (case done of Some t \<Rightarrow> t \<le> e + heartbeat | None \<Rightarrow> False) \<Longrightarrow>
      sent (fst (heartbeatLoop (Suc n) e done w)) =
      sent w @ concat (replicate (Suc (case done of None \<Rightarrow> n
                          | Some t \<Rightarrow> min n ((t - (e + heartbeat) - 1) div heartbeat))) ?X)"
    using Suc.IH[OF pre, of "e + heartbeat"]
    by (simp add: loop_Suc wr fl del: heartbeatLoop.simps(2))
  show ?case
  proof (cases "done")
    case None
    then show ?thesis using step by simp
  next
    case (Some t)
    show ?thesis
    proof (cases "t \<le> e + heartbeat")
      case True
      then have "t - e - 1 < heartbeat" by (simp add: heartbeat_def)
      then have "(t - e - 1) div heartbeat = 0" by simp
      then show ?thesis using True Some by (simp add: loop_Suc del: heartbeatLoop.simps(2))
    next
      case False
      then have "heartbeat \<le> t - e - 1" by simp
      then have "(t - e - 1) div heartbeat = Suc ((t - e - 1 - heartbeat) div heartbeat)"
        by (simp add: le_div_geq heartbeat_def)
      moreover have "t - e - 1 - heartbeat = t - (e + heartbeat) - 1" by simp
      ultimately have d: "min (Suc n) ((t - e - 1) div heartbeat)
                  = Suc (min n ((t - (e + heartbeat) - 1) div heartbeat))"
        by simp
      have "sent (fst (heartbeatLoop (Suc n) e done w)) =
          sent w @ concat (replicate (Suc (min n ((t - (e + heartbeat) - 1) div heartbeat))) ?X)"
        using step False Some by simp
      then show ?thesis unfolding Some option.case d .
    qed
  qed
qed

lemma serveEventStream_open:
  assumes "flusher w" and "fresh w" and "budget w \<noteq> Some 0"
  shows "serveEventStream n w r =
     heartbeatLoop n 0 (ctxDone r)
       (w\<lparr>wheader := sseHeader, sent := [WroteHeader 200 sseHeader, Wrote okLine, Flushed],
          budget := map_option (\<lambda>n. n - 1) (budget w)\<rparr>)"
proof -
  have h: "Header_Set (Header_Set (Header_Set [] ''Content-Type'' ''text/event-stream'')
             ''Cache-Control'' ''no-cache'') ''Connection'' ''keep-alive'' = sseHeader"
    by (simp add: Header_Set_def canon_sse_names sseHeader_def)
  have w: "wheader w = []" "sent w = []" using assms(2) by (simp_all add: fresh_def)
  have wr: "Write (w\<lparr>wheader := sseHeader\<rparr>) okLine =
      (w\<lparr>wheader := sseHeader, sent := [WroteHeader 200 sseHeader, Wrote okLine],
          budget := map_option (\<lambda>n. n - 1) (budget w)\<rparr>, None)"
    using assms(3)
    by (auto simp: Write_def WriteHeader_def wroteHeader_def w Let_def split: option.splits nat.splits)
  have fl: "Flush (w\<lparr>wheader := sseHeader, sent := [WroteHeader 200 sseHeader, Wrote okLine],
          budget := map_option (\<lambda>n. n - 1) (budget w)\<rparr>)
     = w\<lparr>wheader := sseHeader, sent := [WroteHeader 200 sseHeader, Wrote okLine, Flushed],
          budget := map_option (\<lambda>n. n - 1) (budget w)\<rparr>"
    by (simp add: Flush_def WriteHeader_def wroteHeader_def Let_def)
  have ok: "'':ok'' @ [CHR 0x0A, CHR 0x0A] = okLine" by (simp add: okLine_def)
  show ?thesis
    unfolding serveEventStream_def Let_def w h ok wr using assms(1) fl by simp
qed

lemma serveEventStream_returned:
  "snd (serveEventStream n w r) \<longleftrightarrow>
     \<not> flusher w \<or> (\<exists>t. ctxDone r = Some t \<and> t \<le> heartbeat * (n + 1))
     \<or> (\<exists>m. budget w = Some m \<and> m \<le> n)"
proof (cases "flusher w")
  case False
  then show ?thesis by (simp add: serveEventStream_def)
next
  case fl: True
  show ?thesis
  proof (cases "budget w = Some 0")
    case True
    then show ?thesis using fl by (simp add: serveEventStream_def Let_def Write_def)
  next
    case False
    let ?w0 = "w\<lparr>wheader := Header_Set (Header_Set (Header_Set (wheader w) ''Content-Type''
                   ''text/event-stream'') ''Cache-Control'' ''no-cache'') ''Connection'' ''keep-alive''\<rparr>"
    have b0: "budget ?w0 \<noteq> Some 0" using False by simp
    define w1 where "w1 = fst (Write ?w0 ('':ok'' @ [CHR 0x0A, CHR 0x0A]))"
    have w1: "Write ?w0 ('':ok'' @ [CHR 0x0A, CHR 0x0A]) = (w1, None)"
      using Write_budget[OF b0, of "'':ok'' @ [CHR 0x0A, CHR 0x0A]"]
      unfolding w1_def by (simp add: prod_eq_iff)
    have b1: "budget w1 = map_option (\<lambda>n. n - 1) (budget w)"
      using Write_budget[OF b0, of "'':ok'' @ [CHR 0x0A, CHR 0x0A]"]
      unfolding w1_def by simp
    have "snd (serveEventStream n w r) = snd (heartbeatLoop n 0 (ctxDone r) (Flush w1))"
      using fl w1 by (simp add: serveEventStream_def Let_def)
    also have "\<dots> \<longleftrightarrow> (\<exists>t. ctxDone r = Some t \<and> t \<le> heartbeat * (n + 1))
                       \<or> (\<exists>m. budget w1 = Some m \<and> m < n)"
      by (simp add: loop_returned Flush_budget)
    also have "\<dots> \<longleftrightarrow> (\<exists>t. ctxDone r = Some t \<and> t \<le> heartbeat * (n + 1))
                       \<or> (\<exists>m. budget w = Some m \<and> m \<le> n)"
      using False by (cases "budget w") (auto simp: b1)
    finally show ?thesis using fl by simp
  qed
qed

section \<open>The event stream\<close>

text \<open>
  C8, as the code has it. For a GET of the streaming path the transport is never called.
  If the writer cannot flush, the responder answers with status 500 and sends no line of
  the stream. Otherwise it sets \<^verbatim>\<open>Content-Type: text/event-stream\<close>,
  \<^verbatim>\<open>Cache-Control: no-cache\<close> and \<^verbatim>\<open>Connection: keep-alive\<close>, sends \<^verbatim>\<open>:ok\<close> with a
  blank line and flushes, and then at every tick of the 25-second ticker that comes
  before the cancellation sends \<^verbatim>\<open>:keepalive\<close> with a blank line and flushes. Within
  \<open>n\<close> ticks the handler has returned exactly if the writer cannot flush, or the
  cancellation has fired, or a write to the client has failed: cancellation is not the
  only exit, a failed write ends the stream too.
\<close>

theorem event_stream_responder:
  fixes p :: Proxy and r :: request and w :: writer and n :: nat
  assumes "Method r = ''GET''" and "isEventStreamPath (Path (URL r))"
  shows "calls (ServeHTTP p n w r) = []
       \<and> (\<not> flusher w \<and> fresh w \<and> budget w \<noteq> Some 0 \<longrightarrow>
            returned (ServeHTTP p n w r)
          \<and> sent (out (ServeHTTP p n w r)) =
              [WroteHeader 500 errorHeader, Wrote (''streaming unsupported'' @ [CHR 0x0A])])
       \<and> (flusher w \<and> fresh w \<and> budget w = None \<longrightarrow>
            sent (out (ServeHTTP p n w r)) =
              [WroteHeader 200 sseHeader, Wrote okLine, Flushed]
              @ concat (replicate (case ctxDone r of None \<Rightarrow> n
                                   | Some t \<Rightarrow> min n ((t - 1) div heartbeat))
                          [Wrote keepaliveLine, Flushed]))
       \<and> (returned (ServeHTTP p n w r) \<longleftrightarrow>
            \<not> flusher w \<or> (\<exists>t. ctxDone r = Some t \<and> t \<le> heartbeat * (n + 1))
            \<or> (\<exists>m. budget w = Some m \<and> m \<le> n))"
proof -
  have s: "ServeHTTP p n w r =
      \<lparr>out = fst (serveEventStream n w r), returned = snd (serveEventStream n w r), calls = []\<rparr>"
    using assms by (simp add: ServeHTTP_def split: prod.splits)
  have a: "returned (ServeHTTP p n w r)
          \<and> sent (out (ServeHTTP p n w r)) =
              [WroteHeader 500 errorHeader, Wrote (''streaming unsupported'' @ [CHR 0x0A])]"
    if "\<not> flusher w" "fresh w" "budget w \<noteq> Some 0"
    using that
    by (simp add: s serveEventStream_def StatusInternalServerError_def Error_fresh)
  have b: "sent (out (ServeHTTP p n w r)) =
              [WroteHeader 200 sseHeader, Wrote okLine, Flushed]
              @ concat (replicate (case ctxDone r of None \<Rightarrow> n
                                   | Some t \<Rightarrow> min n ((t - 1) div heartbeat))
                          [Wrote keepaliveLine, Flushed])"
    if f: "flusher w" "fresh w" "budget w = None"
  proof -
    let ?w = "w\<lparr>wheader := sseHeader, sent := [WroteHeader 200 sseHeader, Wrote okLine, Flushed],
          budget := map_option (\<lambda>n. n - 1) (budget w)\<rparr>"
    have o: "serveEventStream n w r = heartbeatLoop n 0 (ctxDone r) ?w"
      using serveEventStream_open[OF f(1,2), of n r] f(3) by simp
    have pre: "budget ?w = None" "wroteHeader ?w"
      using f(3) by (simp_all add: wroteHeader_def)
    show ?thesis
      using loop_sent[OF pre, of n 0 "ctxDone r"] by (simp add: s o cong: option.case_cong)
  qed
  show ?thesis
    using a b serveEventStream_returned[of n w r] by (simp add: s)
qed

text \<open>
  Without any cancellation the handler returns when the write of the first heartbeat
  fails.
\<close>

theorem event_stream_exit_counterexample:
  "ctxDone (getFixture ''/mcp'') = None \<and> flusher brokenRecorderFixture
   \<and> returned (ServeHTTP proxyFixture 1 brokenRecorderFixture (getFixture ''/mcp''))
   \<and> sent (out (ServeHTTP proxyFixture 1 brokenRecorderFixture (getFixture ''/mcp'')))
       = [WroteHeader 200 sseHeader, Wrote okLine, Flushed]"
proof -
  have r: "Method (getFixture ''/mcp'') = ''GET''" "isEventStreamPath (Path (URL (getFixture ''/mcp'')))"
    "ctxDone (getFixture ''/mcp'') = None"
    by (simp_all add: getFixture_def emptyURL_def isEventStreamPath_iff)
  have w: "flusher brokenRecorderFixture" "fresh brokenRecorderFixture"
    "budget brokenRecorderFixture = Some 1"
    by (simp_all add: brokenRecorderFixture_def recorderFixture_def fresh_def)
  have s: "ServeHTTP proxyFixture 1 brokenRecorderFixture (getFixture ''/mcp'') =
      \<lparr>out = fst (serveEventStream 1 brokenRecorderFixture (getFixture ''/mcp'')),
       returned = snd (serveEventStream 1 brokenRecorderFixture (getFixture ''/mcp'')), calls = []\<rparr>"
    using r by (simp add: ServeHTTP_def split: prod.splits)
  have o: "serveEventStream 1 brokenRecorderFixture (getFixture ''/mcp'') =
      heartbeatLoop 1 0 None
       (brokenRecorderFixture\<lparr>wheader := sseHeader,
          sent := [WroteHeader 200 sseHeader, Wrote okLine, Flushed], budget := Some 0\<rparr>)"
    using serveEventStream_open[OF w(1,2), of 1 "getFixture ''/mcp''"] w(3) r(3) by simp
  have l: "heartbeatLoop 1 0 None (v\<lparr>budget := Some 0\<rparr>) = (v\<lparr>budget := Some 0\<rparr>, True)" for v :: writer
    using loop_Suc[of 0 0 None "v\<lparr>budget := Some 0\<rparr>"] by (simp add: Write_fails)
  show ?thesis
    unfolding s o l using r(3) w(1) by simp
qed

theorem event_stream_responder_witness:
  "Method cancelledGetFixture = ''GET'' \<and> isEventStreamPath (Path (URL cancelledGetFixture))
   \<and> flusher recorderFixture \<and> fresh recorderFixture \<and> budget recorderFixture = None
   \<and> ctxDone cancelledGetFixture = Some 30
   \<and> calls (ServeHTTP proxyFixture 3 recorderFixture cancelledGetFixture) = []
   \<and> returned (ServeHTTP proxyFixture 3 recorderFixture cancelledGetFixture)
   \<and> sent (out (ServeHTTP proxyFixture 3 recorderFixture cancelledGetFixture))
       = [WroteHeader 200 sseHeader, Wrote okLine, Flushed, Wrote keepaliveLine, Flushed]"
proof -
  have r: "Method cancelledGetFixture = ''GET''" "isEventStreamPath (Path (URL cancelledGetFixture))"
    "ctxDone cancelledGetFixture = Some 30"
    by (simp_all add: cancelledGetFixture_def getFixture_def emptyURL_def isEventStreamPath_iff)
  have w: "flusher recorderFixture" "fresh recorderFixture" "budget recorderFixture = None"
    by (simp_all add: recorderFixture_def fresh_def)
  have k: "min 3 ((30 - 1) div heartbeat) = (1::nat)" by (simp add: heartbeat_def)
  have t: "(30::nat) \<le> heartbeat * (3 + 1)" by (simp add: heartbeat_def)
  show ?thesis
    using event_stream_responder[OF r(1,2), of proxyFixture 3 recorderFixture] r w k t
    by simp
qed





section \<open>The forwarded-context headers\<close>






end
